theory Spec2Isabelle
  imports Main "HOL-Library.Sublist"
begin

section \<open>Text: characters and the string methods the agent uses\<close>

text \<open>
  The agent of \<^verbatim>\<open>backend/agent_graph.py\<close> works on Python strings. They are modelled as
  \<^typ>\<open>string\<close>, read as ASCII text: the character tests below are those of Python on
  code points below 128, and a character outside that range is taken to be neither
  white space nor a word character and to have no other letter case.
\<close>

definition code :: "char \<Rightarrow> nat" where
  "code c = of_char c"

text \<open>\<^verbatim>\<open>str.isspace\<close>, which is also the class \<^verbatim>\<open>\s\<close> and what \<^verbatim>\<open>str.strip()\<close> removes.\<close>

definition is_space :: "char \<Rightarrow> bool" where
  "is_space c \<longleftrightarrow> (9 \<le> code c \<and> code c \<le> 13) \<or> (28 \<le> code c \<and> code c \<le> 32)"

text \<open>The class \<^verbatim>\<open>\d\<close>.\<close>

definition is_digit :: "char \<Rightarrow> bool" where
  "is_digit c \<longleftrightarrow> 48 \<le> code c \<and> code c \<le> 57"

text \<open>The class \<^verbatim>\<open>\w\<close>: letters, digits and the underscore.\<close>

definition is_word :: "char \<Rightarrow> bool" where
  "is_word c \<longleftrightarrow> (48 \<le> code c \<and> code c \<le> 57) \<or> (65 \<le> code c \<and> code c \<le> 90)
     \<or> code c = 95 \<or> (97 \<le> code c \<and> code c \<le> 122)"

definition to_upper :: "char \<Rightarrow> char" where
  "to_upper c = (if 97 \<le> code c \<and> code c \<le> 122 then char_of (code c - 32) else c)"

definition to_lower :: "char \<Rightarrow> char" where
  "to_lower c = (if 65 \<le> code c \<and> code c \<le> 90 then char_of (code c + 32) else c)"

text \<open>\<^verbatim>\<open>str.upper()\<close> and \<^verbatim>\<open>str.lower()\<close>.\<close>

definition upper :: "string \<Rightarrow> string" where
  "upper s = map to_upper s"

definition lower :: "string \<Rightarrow> string" where
  "lower s = map to_lower s"

text \<open>\<^verbatim>\<open>str.lstrip()\<close>, \<^verbatim>\<open>str.rstrip()\<close>, \<^verbatim>\<open>str.strip()\<close> and \<^verbatim>\<open>str.rstrip(chars)\<close>.\<close>

definition lstrip :: "string \<Rightarrow> string" where
  "lstrip s = dropWhile is_space s"

definition rstrip :: "string \<Rightarrow> string" where
  "rstrip s = rev (dropWhile is_space (rev s))"

definition strip :: "string \<Rightarrow> string" where
  "strip s = lstrip (rstrip s)"

definition rstrip_chars :: "string \<Rightarrow> string \<Rightarrow> string" where
  "rstrip_chars cs s = rev (dropWhile (\<lambda>c. c \<in> set cs) (rev s))"

text \<open>\<^verbatim>\<open>str.startswith\<close>.\<close>

definition startswith :: "string \<Rightarrow> string \<Rightarrow> bool" where
  "startswith s p \<longleftrightarrow> take (length p) s = p"

text \<open>\<^verbatim>\<open>sep.join(xs)\<close>.\<close>

fun join :: "string \<Rightarrow> string list \<Rightarrow> string" where
  "join sep [] = []"
| "join sep [x] = x"
| "join sep (x # y # ys) = x @ sep @ join sep (y # ys)"

text \<open>
  \<^verbatim>\<open>int(digits)\<close> on a run of decimal digits, and \<^verbatim>\<open>str(n)\<close> of a natural number, as the
  f-strings print it. Python's integers are unbounded, as \<^typ>\<open>nat\<close> is.
\<close>

definition int_of_digits :: "string \<Rightarrow> nat" where
  "int_of_digits ds = foldl (\<lambda>n c. 10 * n + (code c - 48)) 0 ds"

fun str_nat :: "nat \<Rightarrow> string" where
  "str_nat n = (if n < 10 then [char_of (48 + n)] else str_nat (n div 10) @ [char_of (48 + n mod 10)])"

declare str_nat.simps [simp del]

section \<open>The regular expressions of the validator\<close>

text \<open>
  Every pattern of \<^verbatim>\<open>sql_validation_node\<close> is a sequence of literal characters, the
  assertion \<^verbatim>\<open>\b\<close>, and greedy repetitions \<^verbatim>\<open>\s+\<close>, \<^verbatim>\<open>\w+\<close>, \<^verbatim>\<open>\d+\<close>, one of which may be
  the capturing group. A pattern is a list of such atoms, and the matcher is the
  backtracking matcher of \<^verbatim>\<open>re\<close>: a greedy repetition takes the longest run first and gives
  characters back one at a time until the rest of the pattern matches.
\<close>

datatype cclass = Space | Word | Digit

fun in_class :: "cclass \<Rightarrow> char \<Rightarrow> bool" where
  "in_class Space c = is_space c"
| "in_class Word c = is_word c"
| "in_class Digit c = is_digit c"

datatype atom = Lit char | WordB | Plus cclass | GroupPlus cclass

type_synonym pattern = "atom list"

text \<open>
  A position in the subject is the character before it (if any) and the text from it
  on. \<^verbatim>\<open>\b\<close> holds where exactly one of the two neighbours is a word character.
\<close>

definition word_before :: "char option \<Rightarrow> bool" where
  "word_before p = (case p of None \<Rightarrow> False | Some c \<Rightarrow> is_word c)"

definition word_after :: "string \<Rightarrow> bool" where
  "word_after s = (case s of [] \<Rightarrow> False | c # _ \<Rightarrow> is_word c)"

definition at_boundary :: "char option \<Rightarrow> string \<Rightarrow> bool" where
  "at_boundary p s \<longleftrightarrow> word_before p \<noteq> word_after s"

fun first_some :: "'a option list \<Rightarrow> 'a option" where
  "first_some [] = None"
| "first_some (x # xs) = (case x of Some y \<Rightarrow> Some y | None \<Rightarrow> first_some xs)"

text \<open>The lengths a greedy repetition tries, longest first.\<close>

definition run_lengths :: "cclass \<Rightarrow> string \<Rightarrow> nat list" where
  "run_lengths cl s = rev [1 ..< Suc (length (takeWhile (in_class cl) s))]"

text \<open>
  \<open>rmatch pat p s g\<close> matches \<open>pat\<close> at the position \<open>(p, s)\<close> with the group \<open>g\<close> captured
  so far; the result is the text left after the match and the group.
\<close>

fun rmatch :: "pattern \<Rightarrow> char option \<Rightarrow> string \<Rightarrow> string option \<Rightarrow> (string \<times> string option) option" where
  "rmatch [] p s g = Some (s, g)"
| "rmatch (Lit c # r) p s g =
     (case s of [] \<Rightarrow> None | d # t \<Rightarrow> if d = c then rmatch r (Some d) t g else None)"
| "rmatch (WordB # r) p s g = (if at_boundary p s then rmatch r p s g else None)"
| "rmatch (Plus cl # r) p s g =
     first_some (map (\<lambda>k. rmatch r (Some (last (take k s))) (drop k s) g) (run_lengths cl s))"
| "rmatch (GroupPlus cl # r) p s g =
     first_some (map (\<lambda>k. rmatch r (Some (last (take k s))) (drop k s) (Some (take k s)))
       (run_lengths cl s))"

text \<open>\<^verbatim>\<open>re.search\<close>: the first position, from the left, where the pattern matches.\<close>

fun re_search :: "pattern \<Rightarrow> char option \<Rightarrow> string \<Rightarrow> (string \<times> string option) option" where
  "re_search pat p [] = rmatch pat p [] None"
| "re_search pat p (c # t) =
     (case rmatch pat p (c # t) None of Some m \<Rightarrow> Some m | None \<Rightarrow> re_search pat (Some c) t)"

text \<open>
  \<^verbatim>\<open>re.findall\<close> with one group: the group of every match, scanning from the left and
  resuming where the previous match ended (one character further after an empty match).
\<close>

definition group_text :: "string option \<Rightarrow> string" where
  "group_text g = (case g of None \<Rightarrow> [] | Some x \<Rightarrow> x)"

function re_findall :: "pattern \<Rightarrow> char option \<Rightarrow> string \<Rightarrow> string list" where
  "re_findall pat p s =
     (case rmatch pat p s None of
        Some (s', g) \<Rightarrow>
          (if length s' < length s
           then group_text g # re_findall pat (Some (last (take (length s - length s') s))) s'
           else group_text g # (case s of [] \<Rightarrow> [] | c # t \<Rightarrow> re_findall pat (Some c) t))
      | None \<Rightarrow> (case s of [] \<Rightarrow> [] | c # t \<Rightarrow> re_findall pat (Some c) t))"
  by pat_completeness auto
termination
  by (relation "measure (\<lambda>(pat, p, s). length s)") auto

declare re_findall.simps [simp del]

section \<open>The workflow state and the collaborators\<close>

text \<open>
  \<^verbatim>\<open>Context\<close> is the dictionary that \<^verbatim>\<open>run_agent\<close> creates with every key present; a key
  holding \<^verbatim>\<open>None\<close> is \<^term>\<open>None\<close> here. The schema and the confidence are only copied
  into prompts and logs, and are left out. A result row maps column names to scalars.
\<close>

datatype scalar = SNull | SBool bool | SInt int | SText string

type_synonym row = "(string \<times> scalar) list"

record Context =
  user_question :: string
  deepseek_sql :: "string option"
  sql_explanation :: "string option"
  validated_sql :: "string option"
  sql_error :: "string option"
  result_rows :: "row list"
  result_columns :: "string list"
  final_answer :: "string option"
  repair_count :: nat

text \<open>
  A call of \<^verbatim>\<open>call_deepseek_json\<close> either raises (\<open>Inl\<close> the text of the exception) or
  returns the parsed JSON object. The replies modelled are the objects whose values are
  strings: a key is absent or holds a string. The collaborators of one run are: the schema
  provider, the three kinds of backend call (the repair call indexed by the number of
  repairs made before it) and the row store.
\<close>

type_synonym reply = "string + (string \<rightharpoonup> string)"

record collaborators =
  get_schema :: "string + unit"
  generation_call :: reply
  repair_call :: "nat \<Rightarrow> reply"
  run_query :: "string \<Rightarrow> string + (string list \<times> row list)"
  answer_call :: reply

text \<open>The backend calls a node makes are recorded beside the state it returns.\<close>

datatype backend_call = GenerationCall | RepairCall | QueryCall string | AnswerCall

text \<open>\<^verbatim>\<open>d.get(key, default)\<close>.\<close>

definition get_or :: "(string \<rightharpoonup> string) \<Rightarrow> string \<Rightarrow> string \<Rightarrow> string" where
  "get_or d k dflt = (case d k of None \<Rightarrow> dflt | Some v \<Rightarrow> v)"

text \<open>Truth value of an optional string: \<^verbatim>\<open>None\<close> and \<^verbatim>\<open>""\<close> are false.\<close>

definition truthy :: "string option \<Rightarrow> bool" where
  "truthy x \<longleftrightarrow> (case x of None \<Rightarrow> False | Some s \<Rightarrow> s \<noteq> [])"

text \<open>How an f-string prints an optional string.\<close>

definition str_opt :: "string option \<Rightarrow> string" where
  "str_opt x = (case x of None \<Rightarrow> ''None'' | Some s \<Rightarrow> s)"

definition MAX_REPAIR_ATTEMPTS :: nat where
  "MAX_REPAIR_ATTEMPTS = 2"

text \<open>The text of the \<^verbatim>\<open>TypeError\<close> that slicing \<^verbatim>\<open>None\<close> raises.\<close>

definition not_subscriptable :: string where
  "not_subscriptable = [CHR 0x27] @ ''NoneType'' @ [CHR 0x27] @ '' object is not subscriptable''"

section \<open>The validator\<close>

text \<open>The error texts of the validator, under the names the specification gives them.\<close>

definition EmptyQuery :: string where
  "EmptyQuery = ''SQL query is empty''"

definition DisallowedStatementForm :: string where
  "DisallowedStatementForm = ''SQL must start with SELECT or WITH''"

definition ForbiddenKeyword :: "string \<Rightarrow> string" where
  "ForbiddenKeyword keyword = ''Forbidden keyword found: '' @ keyword"

definition InvalidTableReference :: "string \<Rightarrow> string" where
  "InvalidTableReference table_ref =
     ''Invalid table reference: '' @ table_ref @ ''. Only '' @ [CHR 0x27] @ ''nyc_311'' @ [CHR 0x27]
       @ '' and CTEs are allowed.''"

definition LimitExceeded :: "nat \<Rightarrow> string" where
  "LimitExceeded limit_value = ''LIMIT value '' @ str_nat limit_value @ '' exceeds maximum of 1000''"

definition forbidden_keywords :: "string list" where
  "forbidden_keywords =
     [''INSERT'', ''UPDATE'', ''DELETE'', ''DROP'', ''ALTER'', ''ATTACH'',
      ''PRAGMA'', ''CREATE'', ''TRUNCATE'', ''COPY'', ''ANALYZE'', ''EXECUTE'',
      ''EXEC'', ''CALL'', ''MERGE'', ''REPLACE'']"

text \<open>
  \<^verbatim>\<open>r'' + re.escape(keyword) + r''\<close>; \<^verbatim>\<open>re.escape\<close> leaves the letters of a keyword as
  they are.
\<close>

definition keyword_pattern :: "string \<Rightarrow> pattern" where
  "keyword_pattern keyword = WordB # map Lit keyword @ [WordB]"

text \<open>The loop over the forbidden keywords: the first one, in list order, that is found.\<close>

definition find_forbidden :: "string \<Rightarrow> string option" where
  "find_forbidden sql_upper =
     find (\<lambda>keyword. re_search (keyword_pattern keyword) None sql_upper \<noteq> None) forbidden_keywords"

text \<open>\<^verbatim>\<open>FROM\s+(\w+)\<close>, \<^verbatim>\<open>JOIN\s+(\w+)\<close> and \<^verbatim>\<open>WITH\s+(\w+)\<close>.\<close>

definition from_pattern :: pattern where
  "from_pattern = WordB # map Lit ''FROM'' @ [Plus Space, GroupPlus Word, WordB]"

definition join_pattern :: pattern where
  "join_pattern = WordB # map Lit ''JOIN'' @ [Plus Space, GroupPlus Word, WordB]"

definition with_pattern :: pattern where
  "with_pattern = WordB # map Lit ''WITH'' @ [Plus Space, GroupPlus Word]"

definition table_refs :: "string \<Rightarrow> string list" where
  "table_refs sql_upper = re_findall from_pattern None sql_upper @ re_findall join_pattern None sql_upper"

definition valid_tables :: "string \<Rightarrow> string set" where
  "valid_tables sql_upper =
     {''nyc_311'', ''NYC_311'', ''Nyc_311''} \<union> set (re_findall with_pattern None sql_upper)"

text \<open>The loop over the table references: the first one that is not allowed.\<close>

definition find_invalid_table :: "string \<Rightarrow> string option" where
  "find_invalid_table sql_upper =
     find (\<lambda>table_ref. lower table_ref \<noteq> ''nyc_311'' \<and> table_ref \<notin> valid_tables sql_upper)
       (table_refs sql_upper)"

text \<open>\<^verbatim>\<open>LIMIT\s+\d+\<close> and \<^verbatim>\<open>LIMIT\s+(\d+)\<close>.\<close>

definition limit_pattern :: pattern where
  "limit_pattern = WordB # map Lit ''LIMIT'' @ [Plus Space, Plus Digit]"

definition limit_value_pattern :: pattern where
  "limit_value_pattern = WordB # map Lit ''LIMIT'' @ [Plus Space, GroupPlus Digit]"

text \<open>
  The part of \<^verbatim>\<open>sql_validation_node\<close> from the LIMIT check on: the query gets
  \<^verbatim>\<open>LIMIT 1000\<close> appended when \<^verbatim>\<open>sql_upper\<close> has no LIMIT clause, then the first LIMIT
  value found in \<^verbatim>\<open>sql_upper\<close> (which the appending did not change) is compared with 1000.
\<close>

definition limit_step :: "string \<Rightarrow> string \<Rightarrow> Context \<Rightarrow> Context" where
  "limit_step sql sql_upper state =
     (let state1 =
        (if re_search limit_pattern None sql_upper = None
         then state\<lparr>deepseek_sql := Some (strip (rstrip_chars '';'' sql) @ '' LIMIT 1000'')\<rparr>
         else state)
      in case re_search limit_value_pattern None sql_upper of
           Some (rest, g) \<Rightarrow>
             (if int_of_digits (group_text g) > 1000
              then state1\<lparr>sql_error := Some (LimitExceeded (int_of_digits (group_text g)))\<rparr>
              else state1\<lparr>validated_sql := deepseek_sql state1\<rparr>)
         | None \<Rightarrow> state1\<lparr>validated_sql := deepseek_sql state1\<rparr>)"

text \<open>
  \<^verbatim>\<open>sql_validation_node\<close>. Its first statement after reading the candidate slices it for
  the log, which raises \<^verbatim>\<open>TypeError\<close> when the candidate is \<^verbatim>\<open>None\<close>: that is \<open>Inl\<close>.
\<close>

definition sql_validation_node :: "Context \<Rightarrow> string + Context" where
  "sql_validation_node state0 =
     (case deepseek_sql state0 of
        None \<Rightarrow> Inl not_subscriptable
      | Some sql \<Rightarrow>
          (let state = state0\<lparr>sql_error := None, validated_sql := None\<rparr>;
               sql_upper = strip (upper sql)
           in if sql = [] \<or> strip sql = [] then Inr (state\<lparr>sql_error := Some EmptyQuery\<rparr>)
              else if \<not> (startswith sql_upper ''SELECT'' \<or> startswith sql_upper ''WITH'')
              then Inr (state\<lparr>sql_error := Some DisallowedStatementForm\<rparr>)
              else case find_forbidden sql_upper of
                     Some keyword \<Rightarrow> Inr (state\<lparr>sql_error := Some (ForbiddenKeyword keyword)\<rparr>)
                   | None \<Rightarrow>
                       (case find_invalid_table sql_upper of
                          Some table_ref \<Rightarrow>
                            Inr (state\<lparr>sql_error := Some (InvalidTableReference table_ref)\<rparr>)
                        | None \<Rightarrow> Inr (limit_step sql sql_upper state))))"

section \<open>The other nodes\<close>

text \<open>
  \<^verbatim>\<open>input_node\<close>: \<^verbatim>\<open>run_agent\<close> has already put the schema and \<^verbatim>\<open>repair_count\<close> into
  the state, so both tests for a missing key fail and the state is returned as it is.
\<close>

definition input_node :: "Context \<Rightarrow> Context" where
  "input_node state = state"

definition GenerationFailed :: "string \<Rightarrow> string" where
  "GenerationFailed detail = ''SQL generation failed: '' @ detail"

definition RepairFailed :: "string \<Rightarrow> string" where
  "RepairFailed detail = ''SQL repair failed: '' @ detail"

definition ExecutionFailed :: "string \<Rightarrow> string" where
  "ExecutionFailed detail = ''SQL execution failed: '' @ detail"

definition RepairBudgetExhausted :: "string \<Rightarrow> string" where
  "RepairBudgetExhausted last_error =
     ''Maximum repair attempts ('' @ str_nat MAX_REPAIR_ATTEMPTS @ '') reached. Last error: '' @ last_error"

text \<open>
  The text of the \<^verbatim>\<open>ValueError\<close> that formatting a string with \<^verbatim>\<open>:.2f\<close> raises.
\<close>

definition unknown_format_code :: string where
  "unknown_format_code =
     ''Unknown format code '' @ [CHR 0x27] @ ''f'' @ [CHR 0x27] @ '' for object of type ''
       @ [CHR 0x27] @ ''str'' @ [CHR 0x27]"

text \<open>
  \<^verbatim>\<open>sql_generation_node\<close>: one backend call; on any exception inside its \<^verbatim>\<open>try\<close> block the
  candidate is \<^verbatim>\<open>None\<close>. The block ends with three log lines, and the last formats the
  confidence with \<^verbatim>\<open>:.2f\<close>: the default \<^verbatim>\<open>0.0\<close> of an absent key formats, a string raises.
  By then the explanation is stored, and it stays.
\<close>

definition sql_generation_node :: "collaborators \<Rightarrow> Context \<Rightarrow> Context \<times> backend_call list" where
  "sql_generation_node env state =
     (case generation_call env of
        Inr result \<Rightarrow>
          (case result ''confidence'' of
             None \<Rightarrow>
               (state\<lparr>deepseek_sql := Some (get_or result ''sql'' []),
                      sql_explanation := Some (get_or result ''explanation'' [])\<rparr>,
                [GenerationCall])
           | Some confidence \<Rightarrow>
               (state\<lparr>sql_explanation := Some (get_or result ''explanation'' []),
                      sql_error := Some (GenerationFailed unknown_format_code),
                      deepseek_sql := None\<rparr>, [GenerationCall]))
      | Inl e \<Rightarrow>
          (state\<lparr>sql_error := Some (GenerationFailed e), deepseek_sql := None\<rparr>, [GenerationCall]))"

text \<open>
  \<^verbatim>\<open>sql_repair_node\<close>. It slices the previous candidate for the log (\<^verbatim>\<open>TypeError\<close> on
  \<^verbatim>\<open>None\<close>), returns without a backend call when the budget is used up, and otherwise
  counts the attempt before it calls the backend.
\<close>

definition sql_repair_node :: "collaborators \<Rightarrow> Context \<Rightarrow> string + Context \<times> backend_call list" where
  "sql_repair_node env state =
     (case deepseek_sql state of
        None \<Rightarrow> Inl not_subscriptable
      | Some previous_sql \<Rightarrow>
          (if repair_count state \<ge> MAX_REPAIR_ATTEMPTS
           then Inr (state\<lparr>sql_error := Some (RepairBudgetExhausted (str_opt (sql_error state)))\<rparr>, [])
           else
             (let state1 = state\<lparr>repair_count := repair_count state + 1\<rparr>
              in case repair_call env (repair_count state) of
                   Inr result \<Rightarrow>
                     Inr (state1\<lparr>deepseek_sql := Some (get_or result ''sql'' []),
                                 sql_explanation := Some (get_or result ''explanation'' []),
                                 sql_error := None\<rparr>, [RepairCall])
                 | Inl e \<Rightarrow> Inr (state1\<lparr>sql_error := Some (RepairFailed e)\<rparr>, [RepairCall]))))"

text \<open>\<^verbatim>\<open>sql_execution_node\<close>: runs the validated query, if there is one.\<close>

definition sql_execution_node :: "collaborators \<Rightarrow> Context \<Rightarrow> Context \<times> backend_call list" where
  "sql_execution_node env state =
     (if \<not> truthy (validated_sql state)
      then (state\<lparr>sql_error := Some ''No validated SQL to execute''\<rparr>, [])
      else
        (let validated = str_opt (validated_sql state)
         in case run_query env validated of
              Inr (columns, rows) \<Rightarrow>
                (state\<lparr>result_columns := columns, result_rows := rows, sql_error := None\<rparr>,
                 [QueryCall validated])
            | Inl error_msg \<Rightarrow>
                (state\<lparr>sql_error := Some (ExecutionFailed error_msg),
                       result_columns := [], result_rows := []\<rparr>, [QueryCall validated])))"

text \<open>
  \<^verbatim>\<open>answer_generation_node\<close>: no backend call when an error is recorded; otherwise one
  call, and a fixed answer built from the result when the call raises.
\<close>

definition answer_generation_node :: "collaborators \<Rightarrow> Context \<Rightarrow> Context \<times> backend_call list" where
  "answer_generation_node env state =
     (if truthy (sql_error state)
      then (state\<lparr>final_answer := Some (''Error: '' @ str_opt (sql_error state))\<rparr>, [])
      else
        (case answer_call env of
           Inr result \<Rightarrow>
             (state\<lparr>final_answer := Some (get_or result ''answer'' ''Unable to generate answer.'')\<rparr>,
              [AnswerCall])
         | Inl e \<Rightarrow>
             (if result_rows state \<noteq> []
              then (state\<lparr>final_answer := Some (''Query executed successfully and returned ''
                       @ str_nat (length (result_rows state)) @ '' rows. Columns: ''
                       @ join '', '' (result_columns state))\<rparr>, [AnswerCall])
              else (state\<lparr>final_answer := Some
                       (''Query executed but returned no results. Error generating answer: '' @ e)\<rparr>,
                    [AnswerCall]))))"

definition output_node :: "Context \<Rightarrow> Context" where
  "output_node state = state"

section \<open>Routing and the graph\<close>

datatype route = Repair | Continue | SkipToAnswer

text \<open>\<^verbatim>\<open>should_repair\<close>, the conditional edge out of the validator.\<close>

definition should_repair :: "Context \<Rightarrow> route" where
  "should_repair state =
     (if truthy (validated_sql state) then Continue
      else if truthy (sql_error state) \<and> repair_count state < MAX_REPAIR_ATTEMPTS then Repair
      else if truthy (sql_error state) \<and> \<not> truthy (validated_sql state) then SkipToAnswer
      else Continue)"

datatype node = Input | GenerateSql | ValidateSql | RepairSql | ExecuteSql | GenerateAnswer | Output

text \<open>The function each node of \<^verbatim>\<open>build_graph\<close> runs.\<close>

fun run_node :: "collaborators \<Rightarrow> node \<Rightarrow> Context \<Rightarrow> string + Context \<times> backend_call list" where
  "run_node env Input state = Inr (input_node state, [])"
| "run_node env GenerateSql state = Inr (sql_generation_node env state)"
| "run_node env ValidateSql state =
     (case sql_validation_node state of Inl e \<Rightarrow> Inl e | Inr state' \<Rightarrow> Inr (state', []))"
| "run_node env RepairSql state = sql_repair_node env state"
| "run_node env ExecuteSql state = Inr (sql_execution_node env state)"
| "run_node env GenerateAnswer state = Inr (answer_generation_node env state)"
| "run_node env Output state = Inr (output_node state, [])"

text \<open>The edges of \<^verbatim>\<open>build_graph\<close>; \<open>None\<close> is \<^verbatim>\<open>END\<close>.\<close>

fun next_node :: "node \<Rightarrow> Context \<Rightarrow> node option" where
  "next_node Input state = Some GenerateSql"
| "next_node GenerateSql state = Some ValidateSql"
| "next_node ValidateSql state =
     (case should_repair state of
        Repair \<Rightarrow> Some RepairSql
      | Continue \<Rightarrow> Some ExecuteSql
      | SkipToAnswer \<Rightarrow> Some GenerateAnswer)"
| "next_node RepairSql state = Some ValidateSql"
| "next_node ExecuteSql state = Some GenerateAnswer"
| "next_node GenerateAnswer state = Some Output"
| "next_node Output state = None"

text \<open>
  One run of the graph from a node: the nodes run, each with the state it returned and
  the backend calls it made, and the exception that ended the run, if one did.
\<close>

type_synonym step = "node \<times> Context \<times> backend_call list"

text \<open>The rank of a node and state, which every edge of the graph lowers.\<close>

fun rank :: "node \<Rightarrow> Context \<Rightarrow> nat" where
  "rank Input state = 10"
| "rank GenerateSql state = 9"
| "rank ValidateSql state = 4 + 2 * (MAX_REPAIR_ATTEMPTS - repair_count state)"
| "rank RepairSql state = 5 + 2 * (MAX_REPAIR_ATTEMPTS - 1 - repair_count state)"
| "rank ExecuteSql state = 2"
| "rank GenerateAnswer state = 1"
| "rank Output state = 0"

function run_from :: "collaborators \<Rightarrow> node \<Rightarrow> Context \<Rightarrow> step list \<times> string option" where
  "run_from env n state =
     (case run_node env n state of
        Inl e \<Rightarrow> ([], Some e)
      | Inr (state', cs) \<Rightarrow>
          (case next_node n state' of
             None \<Rightarrow> ([(n, state', cs)], None)
           | Some n' \<Rightarrow>
               (case run_from env n' state' of (steps, raised) \<Rightarrow> ((n, state', cs) # steps, raised))))"
  by pat_completeness auto
termination
proof (relation "measure (\<lambda>(env, n, state). rank n state)")
  show "wf (measure (\<lambda>(env, n, state). rank n state))"
    by simp
next
  fix env n state r state' cs n'
  assume run: "run_node env n state = Inr r" and r: "(state', cs) = r"
    and nxt: "next_node n state' = Some n'"
  have validated: "repair_count t = repair_count s" if "sql_validation_node s = Inr t" for s t
    using that
    by (auto simp: sql_validation_node_def limit_step_def Let_def
        split: option.splits if_splits prod.splits)
  have repaired: "repair_count t =
      (if repair_count s < MAX_REPAIR_ATTEMPTS then repair_count s + 1 else repair_count s)"
    if "sql_repair_node env s = Inr (t, c)" for s t c
    using that
    by (auto simp: sql_repair_node_def Let_def split: option.splits if_splits sum.splits)
  have "rank n' state' < rank n state"
  proof (cases n)
    case ValidateSql
    from run r ValidateSql have c: "repair_count state' = repair_count state"
      by (auto split: sum.splits dest: validated)
    from nxt ValidateSql show ?thesis
      by (auto simp: c should_repair_def MAX_REPAIR_ATTEMPTS_def split: route.splits if_splits)
  next
    case RepairSql
    from run r RepairSql have "repair_count state' =
        (if repair_count state < MAX_REPAIR_ATTEMPTS then repair_count state + 1
         else repair_count state)"
      by (auto dest: repaired)
    with nxt RepairSql show ?thesis
      by (auto simp: MAX_REPAIR_ATTEMPTS_def split: if_splits)
  qed (use run r nxt in \<open>auto simp: MAX_REPAIR_ATTEMPTS_def\<close>)
  then show "((env, n', state'), (env, n, state)) \<in> measure (\<lambda>(env, n, state). rank n state)"
    by simp
qed

declare run_from.simps [simp del]

section \<open>\<^verbatim>\<open>run_agent\<close>\<close>

text \<open>The dictionary \<^verbatim>\<open>run_agent\<close> returns.\<close>

record response =
  answer_text :: "string option"
  sql :: "string option"
  columns :: "string list"
  rows :: "row list"
  error :: "string option"

definition initial_context :: "string \<Rightarrow> Context" where
  "initial_context question =
     \<lparr>user_question = question, deepseek_sql = None, sql_explanation = None,
      validated_sql = None, sql_error = None, result_rows = [], result_columns = [],
      final_answer = None, repair_count = 0\<rparr>"

text \<open>The state the graph ends in: that of the last node run.\<close>

definition final_state :: "Context \<Rightarrow> step list \<Rightarrow> Context" where
  "final_state state steps = (case rev steps of [] \<Rightarrow> state | (n, state', cs) # _ \<Rightarrow> state')"

text \<open>
  \<^verbatim>\<open>run_agent\<close>: an exception of the schema provider is raised again (\<open>Inl\<close>); an exception
  of the graph becomes an answer.
\<close>

definition run_agent :: "collaborators \<Rightarrow> string \<Rightarrow> string + response" where
  "run_agent env question =
     (case get_schema env of
        Inl e \<Rightarrow> Inl e
      | Inr schema \<Rightarrow>
          (case run_from env Input (initial_context question) of
             (steps, Some e) \<Rightarrow>
               Inr \<lparr>answer_text = Some (''Agent execution failed: '' @ e), sql = None,
                    columns = [], rows = [], error = Some e\<rparr>
           | (steps, None) \<Rightarrow>
               (let state = final_state (initial_context question) steps
                in Inr \<lparr>answer_text = final_answer state, sql = validated_sql state,
                        columns = result_columns state, rows = result_rows state,
                        error = sql_error state\<rparr>)))"

text \<open>The answer a caller of \<^verbatim>\<open>run_agent\<close> reads, if the call returns.\<close>

definition answer_of :: "string + response \<Rightarrow> string option" where
  "answer_of result = (case result of Inl e \<Rightarrow> None | Inr r \<Rightarrow> answer_text r)"

text \<open>What is observed of a step: the node, the validated query and the error after it.\<close>

definition observe :: "step \<Rightarrow> node \<times> string option \<times> string option" where
  "observe step = (fst step, validated_sql (fst (snd step)), sql_error (fst (snd step)))"

section \<open>Words of a text\<close>

text \<open>
  What the specification calls a whole-word, case-insensitive match, in its own terms and
  apart from the regular expressions of the code. A word of a text is a maximal run of
  word characters; \<open>runs acc text\<close> lists the words of \<open>text\<close>, the first one continuing
  the run \<open>acc\<close> read so far. A keyword occurs as a whole word when it is one of the
  words, letter case apart.
\<close>

fun runs :: "string \<Rightarrow> string \<Rightarrow> string list" where
  "runs acc [] = (if acc = [] then [] else [acc])"
| "runs acc (c # t) =
     (if is_word c then runs (acc @ [c]) t
      else if acc = [] then runs [] t else acc # runs [] t)"

definition words_of :: "string \<Rightarrow> string list" where
  "words_of text = runs [] text"

definition occurs_whole_word :: "string \<Rightarrow> string \<Rightarrow> bool" where
  "occurs_whole_word keyword text \<longleftrightarrow> keyword \<in> set (map upper (words_of text))"

text \<open>
  The text functions above are those of Python on ASCII text; what is proved of the
  validator for every query is proved for the queries in ASCII.
\<close>

definition is_ascii :: "string \<Rightarrow> bool" where
  "is_ascii text = list_all (\<lambda>c. code c < 128) text"

text \<open>The checks of the validator that come before its LIMIT policy.\<close>

definition passes_form_checks :: "string \<Rightarrow> bool" where
  "passes_form_checks query \<longleftrightarrow>
     strip query \<noteq> [] \<and>
     (startswith (strip (upper query)) ''SELECT'' \<or> startswith (strip (upper query)) ''WITH'')"

definition passes_earlier_checks :: "string \<Rightarrow> bool" where
  "passes_earlier_checks query \<longleftrightarrow>
     passes_form_checks query \<and>
     find_forbidden (strip (upper query)) = None \<and>
     find_invalid_table (strip (upper query)) = None"

text \<open>
  The validator at the start of a run with a given candidate, and what is read of its
  result: the validated query and the error.
\<close>

definition candidate_state :: "string \<Rightarrow> Context" where
  "candidate_state candidate =
     (initial_context ''How many complaints are there?'')\<lparr>deepseek_sql := Some candidate\<rparr>"

definition verdict :: "string + Context \<Rightarrow> string option \<times> string option" where
  "verdict result =
     (case result of Inl e \<Rightarrow> (None, Some e) | Inr state \<Rightarrow> (validated_sql state, sql_error state))"

text \<open>Queries with one and with two common table expressions.\<close>

definition one_cte :: string where
  "one_cte = ''WITH a AS (SELECT * FROM nyc_311) SELECT * FROM a LIMIT 10''"

definition two_ctes :: string where
  "two_ctes = ''WITH a AS (SELECT * FROM nyc_311), b AS (SELECT * FROM a) SELECT * FROM b LIMIT 10''"

text \<open>
  Queries for the LIMIT policy: the example of the specification, which has no LIMIT
  clause; a query whose one LIMIT clause is above the maximum; a query with a LIMIT
  clause in a subquery and another, above the maximum, after it; and a query whose
  statement terminator is followed by a line break.
\<close>

definition grouped_query :: string where
  "grouped_query = ''SELECT complaint_type, COUNT(*) FROM nyc_311 GROUP BY complaint_type''"

definition large_limit_query :: string where
  "large_limit_query = ''SELECT * FROM nyc_311 LIMIT 5000''"

definition nested_limit_query :: string where
  "nested_limit_query = ''SELECT * FROM (SELECT * FROM nyc_311 LIMIT 10) LIMIT 5000''"

definition terminated_query :: string where
  "terminated_query = ''SELECT COUNT(*) FROM nyc_311;'' @ [CHR 0x0A]"

section \<open>Example states and collaborators\<close>

text \<open>Concrete states and collaborators, at which the theorems below are instantiated.\<close>

definition example_state :: "string option \<Rightarrow> string option \<Rightarrow> nat \<Rightarrow> Context" where
  "example_state validated err n =
     (initial_context ''How many complaints are there?'')
       \<lparr>validated_sql := validated, sql_error := err, repair_count := n\<rparr>"

text \<open>A backend that proposes the same statement at generation and at every repair.\<close>

definition stubborn_backend :: "string \<Rightarrow> collaborators" where
  "stubborn_backend candidate =
     \<lparr>get_schema = Inr (),
      generation_call = Inr [''sql'' \<mapsto> candidate, ''explanation'' \<mapsto> ''first try''],
      repair_call = (\<lambda>n. Inr [''sql'' \<mapsto> candidate, ''explanation'' \<mapsto> ''same again'']),
      run_query = (\<lambda>q. Inr ([''n''], [[(''n'', SInt 1)]])),
      answer_call = Inr [''answer'' \<mapsto> ''One row.'']\<rparr>"

text \<open>A backend whose query is valid, with a row store that fails.\<close>

definition failing_store :: collaborators where
  "failing_store =
     \<lparr>get_schema = Inr (),
      generation_call = Inr [''sql'' \<mapsto> ''SELECT 1'', ''explanation'' \<mapsto> ''a constant''],
      repair_call = (\<lambda>n. Inl ''not called''),
      run_query = (\<lambda>q. Inl ''Catalog Error''),
      answer_call = Inl ''not called''\<rparr>"

text \<open>A backend that is down: every call raises.\<close>

definition backend_down :: collaborators where
  "backend_down =
     \<lparr>get_schema = Inr (),
      generation_call = Inl ''timeout'',
      repair_call = (\<lambda>n. Inl ''timeout''),
      run_query = (\<lambda>q. Inl ''not called''),
      answer_call = Inl ''timeout''\<rparr>"

text \<open>A schema provider that fails.\<close>

definition schema_down :: collaborators where
  "schema_down = backend_down\<lparr>get_schema := Inl ''Table does not exist''\<rparr>"

text \<open>A state after a successful execution that returned three rows.\<close>

definition executed_state :: Context where
  "executed_state =
     (initial_context ''How many complaints by borough?'')
       \<lparr>deepseek_sql := Some ''SELECT borough, n FROM nyc_311 LIMIT 3'',
        validated_sql := Some ''SELECT borough, n FROM nyc_311 LIMIT 3'',
        result_columns := [''borough'', ''n''],
        result_rows := [[(''borough'', SText ''BRONX''), (''n'', SInt 7)],
                        [(''borough'', SText ''QUEENS''), (''n'', SInt 5)],
                        [(''borough'', SNull), (''n'', SInt 1)]]\<rparr>"

section \<open>Evaluating the text functions on concrete strings\<close>

text \<open>
  The character tests on each ASCII character, and unfolding rules that let the
  simplifier run the text functions and the matcher on a string literal.
\<close>

lemma char_of_code: "code c = n \<Longrightarrow> char_of n = c"
  by (auto simp: code_def)

lemma is_space_ascii:
  "\<not> is_space (CHR 0x00)" "\<not> is_space (CHR 0x01)" "\<not> is_space (CHR 0x02)" "\<not> is_space (CHR 0x03)"
  "\<not> is_space (CHR 0x04)" "\<not> is_space (CHR 0x05)" "\<not> is_space (CHR 0x06)" "\<not> is_space (CHR 0x07)"
  "\<not> is_space (CHR 0x08)" "is_space (CHR 0x09)" "is_space (CHR 0x0A)" "is_space (CHR 0x0B)"
  "is_space (CHR 0x0C)" "is_space (CHR 0x0D)" "\<not> is_space (CHR 0x0E)" "\<not> is_space (CHR 0x0F)"
  "\<not> is_space (CHR 0x10)" "\<not> is_space (CHR 0x11)" "\<not> is_space (CHR 0x12)" "\<not> is_space (CHR 0x13)"
  "\<not> is_space (CHR 0x14)" "\<not> is_space (CHR 0x15)" "\<not> is_space (CHR 0x16)" "\<not> is_space (CHR 0x17)"
  "\<not> is_space (CHR 0x18)" "\<not> is_space (CHR 0x19)" "\<not> is_space (CHR 0x1A)" "\<not> is_space (CHR 0x1B)"
  "is_space (CHR 0x1C)" "is_space (CHR 0x1D)" "is_space (CHR 0x1E)" "is_space (CHR 0x1F)"
  "is_space (CHR 0x20)" "\<not> is_space (CHR 0x21)" "\<not> is_space (CHR 0x22)" "\<not> is_space (CHR 0x23)"
  "\<not> is_space (CHR 0x24)" "\<not> is_space (CHR 0x25)" "\<not> is_space (CHR 0x26)" "\<not> is_space (CHR 0x27)"
  "\<not> is_space (CHR 0x28)" "\<not> is_space (CHR 0x29)" "\<not> is_space (CHR 0x2A)" "\<not> is_space (CHR 0x2B)"
  "\<not> is_space (CHR 0x2C)" "\<not> is_space (CHR 0x2D)" "\<not> is_space (CHR 0x2E)" "\<not> is_space (CHR 0x2F)"
  "\<not> is_space (CHR 0x30)" "\<not> is_space (CHR 0x31)" "\<not> is_space (CHR 0x32)" "\<not> is_space (CHR 0x33)"
  "\<not> is_space (CHR 0x34)" "\<not> is_space (CHR 0x35)" "\<not> is_space (CHR 0x36)" "\<not> is_space (CHR 0x37)"
  "\<not> is_space (CHR 0x38)" "\<not> is_space (CHR 0x39)" "\<not> is_space (CHR 0x3A)" "\<not> is_space (CHR 0x3B)"
  "\<not> is_space (CHR 0x3C)" "\<not> is_space (CHR 0x3D)" "\<not> is_space (CHR 0x3E)" "\<not> is_space (CHR 0x3F)"
  "\<not> is_space (CHR 0x40)" "\<not> is_space (CHR 0x41)" "\<not> is_space (CHR 0x42)" "\<not> is_space (CHR 0x43)"
  "\<not> is_space (CHR 0x44)" "\<not> is_space (CHR 0x45)" "\<not> is_space (CHR 0x46)" "\<not> is_space (CHR 0x47)"
  "\<not> is_space (CHR 0x48)" "\<not> is_space (CHR 0x49)" "\<not> is_space (CHR 0x4A)" "\<not> is_space (CHR 0x4B)"
  "\<not> is_space (CHR 0x4C)" "\<not> is_space (CHR 0x4D)" "\<not> is_space (CHR 0x4E)" "\<not> is_space (CHR 0x4F)"
  "\<not> is_space (CHR 0x50)" "\<not> is_space (CHR 0x51)" "\<not> is_space (CHR 0x52)" "\<not> is_space (CHR 0x53)"
  "\<not> is_space (CHR 0x54)" "\<not> is_space (CHR 0x55)" "\<not> is_space (CHR 0x56)" "\<not> is_space (CHR 0x57)"
  "\<not> is_space (CHR 0x58)" "\<not> is_space (CHR 0x59)" "\<not> is_space (CHR 0x5A)" "\<not> is_space (CHR 0x5B)"
  "\<not> is_space (CHR 0x5C)" "\<not> is_space (CHR 0x5D)" "\<not> is_space (CHR 0x5E)" "\<not> is_space (CHR 0x5F)"
  "\<not> is_space (CHR 0x60)" "\<not> is_space (CHR 0x61)" "\<not> is_space (CHR 0x62)" "\<not> is_space (CHR 0x63)"
  "\<not> is_space (CHR 0x64)" "\<not> is_space (CHR 0x65)" "\<not> is_space (CHR 0x66)" "\<not> is_space (CHR 0x67)"
  "\<not> is_space (CHR 0x68)" "\<not> is_space (CHR 0x69)" "\<not> is_space (CHR 0x6A)" "\<not> is_space (CHR 0x6B)"
  "\<not> is_space (CHR 0x6C)" "\<not> is_space (CHR 0x6D)" "\<not> is_space (CHR 0x6E)" "\<not> is_space (CHR 0x6F)"
  "\<not> is_space (CHR 0x70)" "\<not> is_space (CHR 0x71)" "\<not> is_space (CHR 0x72)" "\<not> is_space (CHR 0x73)"
  "\<not> is_space (CHR 0x74)" "\<not> is_space (CHR 0x75)" "\<not> is_space (CHR 0x76)" "\<not> is_space (CHR 0x77)"
  "\<not> is_space (CHR 0x78)" "\<not> is_space (CHR 0x79)" "\<not> is_space (CHR 0x7A)" "\<not> is_space (CHR 0x7B)"
  "\<not> is_space (CHR 0x7C)" "\<not> is_space (CHR 0x7D)" "\<not> is_space (CHR 0x7E)" "\<not> is_space (CHR 0x7F)"
  by (simp_all add: is_space_def code_def)

lemma is_digit_ascii:
  "\<not> is_digit (CHR 0x00)" "\<not> is_digit (CHR 0x01)" "\<not> is_digit (CHR 0x02)" "\<not> is_digit (CHR 0x03)"
  "\<not> is_digit (CHR 0x04)" "\<not> is_digit (CHR 0x05)" "\<not> is_digit (CHR 0x06)" "\<not> is_digit (CHR 0x07)"
  "\<not> is_digit (CHR 0x08)" "\<not> is_digit (CHR 0x09)" "\<not> is_digit (CHR 0x0A)" "\<not> is_digit (CHR 0x0B)"
  "\<not> is_digit (CHR 0x0C)" "\<not> is_digit (CHR 0x0D)" "\<not> is_digit (CHR 0x0E)" "\<not> is_digit (CHR 0x0F)"
  "\<not> is_digit (CHR 0x10)" "\<not> is_digit (CHR 0x11)" "\<not> is_digit (CHR 0x12)" "\<not> is_digit (CHR 0x13)"
  "\<not> is_digit (CHR 0x14)" "\<not> is_digit (CHR 0x15)" "\<not> is_digit (CHR 0x16)" "\<not> is_digit (CHR 0x17)"
  "\<not> is_digit (CHR 0x18)" "\<not> is_digit (CHR 0x19)" "\<not> is_digit (CHR 0x1A)" "\<not> is_digit (CHR 0x1B)"
  "\<not> is_digit (CHR 0x1C)" "\<not> is_digit (CHR 0x1D)" "\<not> is_digit (CHR 0x1E)" "\<not> is_digit (CHR 0x1F)"
  "\<not> is_digit (CHR 0x20)" "\<not> is_digit (CHR 0x21)" "\<not> is_digit (CHR 0x22)" "\<not> is_digit (CHR 0x23)"
  "\<not> is_digit (CHR 0x24)" "\<not> is_digit (CHR 0x25)" "\<not> is_digit (CHR 0x26)" "\<not> is_digit (CHR 0x27)"
  "\<not> is_digit (CHR 0x28)" "\<not> is_digit (CHR 0x29)" "\<not> is_digit (CHR 0x2A)" "\<not> is_digit (CHR 0x2B)"
  "\<not> is_digit (CHR 0x2C)" "\<not> is_digit (CHR 0x2D)" "\<not> is_digit (CHR 0x2E)" "\<not> is_digit (CHR 0x2F)"
  "is_digit (CHR 0x30)" "is_digit (CHR 0x31)" "is_digit (CHR 0x32)" "is_digit (CHR 0x33)"
  "is_digit (CHR 0x34)" "is_digit (CHR 0x35)" "is_digit (CHR 0x36)" "is_digit (CHR 0x37)"
  "is_digit (CHR 0x38)" "is_digit (CHR 0x39)" "\<not> is_digit (CHR 0x3A)" "\<not> is_digit (CHR 0x3B)"
  "\<not> is_digit (CHR 0x3C)" "\<not> is_digit (CHR 0x3D)" "\<not> is_digit (CHR 0x3E)" "\<not> is_digit (CHR 0x3F)"
  "\<not> is_digit (CHR 0x40)" "\<not> is_digit (CHR 0x41)" "\<not> is_digit (CHR 0x42)" "\<not> is_digit (CHR 0x43)"
  "\<not> is_digit (CHR 0x44)" "\<not> is_digit (CHR 0x45)" "\<not> is_digit (CHR 0x46)" "\<not> is_digit (CHR 0x47)"
  "\<not> is_digit (CHR 0x48)" "\<not> is_digit (CHR 0x49)" "\<not> is_digit (CHR 0x4A)" "\<not> is_digit (CHR 0x4B)"
  "\<not> is_digit (CHR 0x4C)" "\<not> is_digit (CHR 0x4D)" "\<not> is_digit (CHR 0x4E)" "\<not> is_digit (CHR 0x4F)"
  "\<not> is_digit (CHR 0x50)" "\<not> is_digit (CHR 0x51)" "\<not> is_digit (CHR 0x52)" "\<not> is_digit (CHR 0x53)"
  "\<not> is_digit (CHR 0x54)" "\<not> is_digit (CHR 0x55)" "\<not> is_digit (CHR 0x56)" "\<not> is_digit (CHR 0x57)"
  "\<not> is_digit (CHR 0x58)" "\<not> is_digit (CHR 0x59)" "\<not> is_digit (CHR 0x5A)" "\<not> is_digit (CHR 0x5B)"
  "\<not> is_digit (CHR 0x5C)" "\<not> is_digit (CHR 0x5D)" "\<not> is_digit (CHR 0x5E)" "\<not> is_digit (CHR 0x5F)"
  "\<not> is_digit (CHR 0x60)" "\<not> is_digit (CHR 0x61)" "\<not> is_digit (CHR 0x62)" "\<not> is_digit (CHR 0x63)"
  "\<not> is_digit (CHR 0x64)" "\<not> is_digit (CHR 0x65)" "\<not> is_digit (CHR 0x66)" "\<not> is_digit (CHR 0x67)"
  "\<not> is_digit (CHR 0x68)" "\<not> is_digit (CHR 0x69)" "\<not> is_digit (CHR 0x6A)" "\<not> is_digit (CHR 0x6B)"
  "\<not> is_digit (CHR 0x6C)" "\<not> is_digit (CHR 0x6D)" "\<not> is_digit (CHR 0x6E)" "\<not> is_digit (CHR 0x6F)"
  "\<not> is_digit (CHR 0x70)" "\<not> is_digit (CHR 0x71)" "\<not> is_digit (CHR 0x72)" "\<not> is_digit (CHR 0x73)"
  "\<not> is_digit (CHR 0x74)" "\<not> is_digit (CHR 0x75)" "\<not> is_digit (CHR 0x76)" "\<not> is_digit (CHR 0x77)"
  "\<not> is_digit (CHR 0x78)" "\<not> is_digit (CHR 0x79)" "\<not> is_digit (CHR 0x7A)" "\<not> is_digit (CHR 0x7B)"
  "\<not> is_digit (CHR 0x7C)" "\<not> is_digit (CHR 0x7D)" "\<not> is_digit (CHR 0x7E)" "\<not> is_digit (CHR 0x7F)"
  by (simp_all add: is_digit_def code_def)

lemma is_word_ascii:
  "\<not> is_word (CHR 0x00)" "\<not> is_word (CHR 0x01)" "\<not> is_word (CHR 0x02)" "\<not> is_word (CHR 0x03)"
  "\<not> is_word (CHR 0x04)" "\<not> is_word (CHR 0x05)" "\<not> is_word (CHR 0x06)" "\<not> is_word (CHR 0x07)"
  "\<not> is_word (CHR 0x08)" "\<not> is_word (CHR 0x09)" "\<not> is_word (CHR 0x0A)" "\<not> is_word (CHR 0x0B)"
  "\<not> is_word (CHR 0x0C)" "\<not> is_word (CHR 0x0D)" "\<not> is_word (CHR 0x0E)" "\<not> is_word (CHR 0x0F)"
  "\<not> is_word (CHR 0x10)" "\<not> is_word (CHR 0x11)" "\<not> is_word (CHR 0x12)" "\<not> is_word (CHR 0x13)"
  "\<not> is_word (CHR 0x14)" "\<not> is_word (CHR 0x15)" "\<not> is_word (CHR 0x16)" "\<not> is_word (CHR 0x17)"
  "\<not> is_word (CHR 0x18)" "\<not> is_word (CHR 0x19)" "\<not> is_word (CHR 0x1A)" "\<not> is_word (CHR 0x1B)"
  "\<not> is_word (CHR 0x1C)" "\<not> is_word (CHR 0x1D)" "\<not> is_word (CHR 0x1E)" "\<not> is_word (CHR 0x1F)"
  "\<not> is_word (CHR 0x20)" "\<not> is_word (CHR 0x21)" "\<not> is_word (CHR 0x22)" "\<not> is_word (CHR 0x23)"
  "\<not> is_word (CHR 0x24)" "\<not> is_word (CHR 0x25)" "\<not> is_word (CHR 0x26)" "\<not> is_word (CHR 0x27)"
  "\<not> is_word (CHR 0x28)" "\<not> is_word (CHR 0x29)" "\<not> is_word (CHR 0x2A)" "\<not> is_word (CHR 0x2B)"
  "\<not> is_word (CHR 0x2C)" "\<not> is_word (CHR 0x2D)" "\<not> is_word (CHR 0x2E)" "\<not> is_word (CHR 0x2F)"
  "is_word (CHR 0x30)" "is_word (CHR 0x31)" "is_word (CHR 0x32)" "is_word (CHR 0x33)"
  "is_word (CHR 0x34)" "is_word (CHR 0x35)" "is_word (CHR 0x36)" "is_word (CHR 0x37)"
  "is_word (CHR 0x38)" "is_word (CHR 0x39)" "\<not> is_word (CHR 0x3A)" "\<not> is_word (CHR 0x3B)"
  "\<not> is_word (CHR 0x3C)" "\<not> is_word (CHR 0x3D)" "\<not> is_word (CHR 0x3E)" "\<not> is_word (CHR 0x3F)"
  "\<not> is_word (CHR 0x40)" "is_word (CHR 0x41)" "is_word (CHR 0x42)" "is_word (CHR 0x43)"
  "is_word (CHR 0x44)" "is_word (CHR 0x45)" "is_word (CHR 0x46)" "is_word (CHR 0x47)"
  "is_word (CHR 0x48)" "is_word (CHR 0x49)" "is_word (CHR 0x4A)" "is_word (CHR 0x4B)"
  "is_word (CHR 0x4C)" "is_word (CHR 0x4D)" "is_word (CHR 0x4E)" "is_word (CHR 0x4F)"
  "is_word (CHR 0x50)" "is_word (CHR 0x51)" "is_word (CHR 0x52)" "is_word (CHR 0x53)"
  "is_word (CHR 0x54)" "is_word (CHR 0x55)" "is_word (CHR 0x56)" "is_word (CHR 0x57)"
  "is_word (CHR 0x58)" "is_word (CHR 0x59)" "is_word (CHR 0x5A)" "\<not> is_word (CHR 0x5B)"
  "\<not> is_word (CHR 0x5C)" "\<not> is_word (CHR 0x5D)" "\<not> is_word (CHR 0x5E)" "is_word (CHR 0x5F)"
  "\<not> is_word (CHR 0x60)" "is_word (CHR 0x61)" "is_word (CHR 0x62)" "is_word (CHR 0x63)"
  "is_word (CHR 0x64)" "is_word (CHR 0x65)" "is_word (CHR 0x66)" "is_word (CHR 0x67)"
  "is_word (CHR 0x68)" "is_word (CHR 0x69)" "is_word (CHR 0x6A)" "is_word (CHR 0x6B)"
  "is_word (CHR 0x6C)" "is_word (CHR 0x6D)" "is_word (CHR 0x6E)" "is_word (CHR 0x6F)"
  "is_word (CHR 0x70)" "is_word (CHR 0x71)" "is_word (CHR 0x72)" "is_word (CHR 0x73)"
  "is_word (CHR 0x74)" "is_word (CHR 0x75)" "is_word (CHR 0x76)" "is_word (CHR 0x77)"
  "is_word (CHR 0x78)" "is_word (CHR 0x79)" "is_word (CHR 0x7A)" "\<not> is_word (CHR 0x7B)"
  "\<not> is_word (CHR 0x7C)" "\<not> is_word (CHR 0x7D)" "\<not> is_word (CHR 0x7E)" "\<not> is_word (CHR 0x7F)"
  by (simp_all add: is_word_def code_def)

lemma to_upper_ascii:
  "to_upper (CHR 0x00) = CHR 0x00" "to_upper (CHR 0x01) = CHR 0x01" "to_upper (CHR 0x02) = CHR 0x02"
  "to_upper (CHR 0x03) = CHR 0x03" "to_upper (CHR 0x04) = CHR 0x04" "to_upper (CHR 0x05) = CHR 0x05"
  "to_upper (CHR 0x06) = CHR 0x06" "to_upper (CHR 0x07) = CHR 0x07" "to_upper (CHR 0x08) = CHR 0x08"
  "to_upper (CHR 0x09) = CHR 0x09" "to_upper (CHR 0x0A) = CHR 0x0A" "to_upper (CHR 0x0B) = CHR 0x0B"
  "to_upper (CHR 0x0C) = CHR 0x0C" "to_upper (CHR 0x0D) = CHR 0x0D" "to_upper (CHR 0x0E) = CHR 0x0E"
  "to_upper (CHR 0x0F) = CHR 0x0F" "to_upper (CHR 0x10) = CHR 0x10" "to_upper (CHR 0x11) = CHR 0x11"
  "to_upper (CHR 0x12) = CHR 0x12" "to_upper (CHR 0x13) = CHR 0x13" "to_upper (CHR 0x14) = CHR 0x14"
  "to_upper (CHR 0x15) = CHR 0x15" "to_upper (CHR 0x16) = CHR 0x16" "to_upper (CHR 0x17) = CHR 0x17"
  "to_upper (CHR 0x18) = CHR 0x18" "to_upper (CHR 0x19) = CHR 0x19" "to_upper (CHR 0x1A) = CHR 0x1A"
  "to_upper (CHR 0x1B) = CHR 0x1B" "to_upper (CHR 0x1C) = CHR 0x1C" "to_upper (CHR 0x1D) = CHR 0x1D"
  "to_upper (CHR 0x1E) = CHR 0x1E" "to_upper (CHR 0x1F) = CHR 0x1F" "to_upper (CHR 0x20) = CHR 0x20"
  "to_upper (CHR 0x21) = CHR 0x21" "to_upper (CHR 0x22) = CHR 0x22" "to_upper (CHR 0x23) = CHR 0x23"
  "to_upper (CHR 0x24) = CHR 0x24" "to_upper (CHR 0x25) = CHR 0x25" "to_upper (CHR 0x26) = CHR 0x26"
  "to_upper (CHR 0x27) = CHR 0x27" "to_upper (CHR 0x28) = CHR 0x28" "to_upper (CHR 0x29) = CHR 0x29"
  "to_upper (CHR 0x2A) = CHR 0x2A" "to_upper (CHR 0x2B) = CHR 0x2B" "to_upper (CHR 0x2C) = CHR 0x2C"
  "to_upper (CHR 0x2D) = CHR 0x2D" "to_upper (CHR 0x2E) = CHR 0x2E" "to_upper (CHR 0x2F) = CHR 0x2F"
  "to_upper (CHR 0x30) = CHR 0x30" "to_upper (CHR 0x31) = CHR 0x31" "to_upper (CHR 0x32) = CHR 0x32"
  "to_upper (CHR 0x33) = CHR 0x33" "to_upper (CHR 0x34) = CHR 0x34" "to_upper (CHR 0x35) = CHR 0x35"
  "to_upper (CHR 0x36) = CHR 0x36" "to_upper (CHR 0x37) = CHR 0x37" "to_upper (CHR 0x38) = CHR 0x38"
  "to_upper (CHR 0x39) = CHR 0x39" "to_upper (CHR 0x3A) = CHR 0x3A" "to_upper (CHR 0x3B) = CHR 0x3B"
  "to_upper (CHR 0x3C) = CHR 0x3C" "to_upper (CHR 0x3D) = CHR 0x3D" "to_upper (CHR 0x3E) = CHR 0x3E"
  "to_upper (CHR 0x3F) = CHR 0x3F" "to_upper (CHR 0x40) = CHR 0x40" "to_upper (CHR 0x41) = CHR 0x41"
  "to_upper (CHR 0x42) = CHR 0x42" "to_upper (CHR 0x43) = CHR 0x43" "to_upper (CHR 0x44) = CHR 0x44"
  "to_upper (CHR 0x45) = CHR 0x45" "to_upper (CHR 0x46) = CHR 0x46" "to_upper (CHR 0x47) = CHR 0x47"
  "to_upper (CHR 0x48) = CHR 0x48" "to_upper (CHR 0x49) = CHR 0x49" "to_upper (CHR 0x4A) = CHR 0x4A"
  "to_upper (CHR 0x4B) = CHR 0x4B" "to_upper (CHR 0x4C) = CHR 0x4C" "to_upper (CHR 0x4D) = CHR 0x4D"
  "to_upper (CHR 0x4E) = CHR 0x4E" "to_upper (CHR 0x4F) = CHR 0x4F" "to_upper (CHR 0x50) = CHR 0x50"
  "to_upper (CHR 0x51) = CHR 0x51" "to_upper (CHR 0x52) = CHR 0x52" "to_upper (CHR 0x53) = CHR 0x53"
  "to_upper (CHR 0x54) = CHR 0x54" "to_upper (CHR 0x55) = CHR 0x55" "to_upper (CHR 0x56) = CHR 0x56"
  "to_upper (CHR 0x57) = CHR 0x57" "to_upper (CHR 0x58) = CHR 0x58" "to_upper (CHR 0x59) = CHR 0x59"
  "to_upper (CHR 0x5A) = CHR 0x5A" "to_upper (CHR 0x5B) = CHR 0x5B" "to_upper (CHR 0x5C) = CHR 0x5C"
  "to_upper (CHR 0x5D) = CHR 0x5D" "to_upper (CHR 0x5E) = CHR 0x5E" "to_upper (CHR 0x5F) = CHR 0x5F"
  "to_upper (CHR 0x60) = CHR 0x60" "to_upper (CHR 0x61) = CHR 0x41" "to_upper (CHR 0x62) = CHR 0x42"
  "to_upper (CHR 0x63) = CHR 0x43" "to_upper (CHR 0x64) = CHR 0x44" "to_upper (CHR 0x65) = CHR 0x45"
  "to_upper (CHR 0x66) = CHR 0x46" "to_upper (CHR 0x67) = CHR 0x47" "to_upper (CHR 0x68) = CHR 0x48"
  "to_upper (CHR 0x69) = CHR 0x49" "to_upper (CHR 0x6A) = CHR 0x4A" "to_upper (CHR 0x6B) = CHR 0x4B"
  "to_upper (CHR 0x6C) = CHR 0x4C" "to_upper (CHR 0x6D) = CHR 0x4D" "to_upper (CHR 0x6E) = CHR 0x4E"
  "to_upper (CHR 0x6F) = CHR 0x4F" "to_upper (CHR 0x70) = CHR 0x50" "to_upper (CHR 0x71) = CHR 0x51"
  "to_upper (CHR 0x72) = CHR 0x52" "to_upper (CHR 0x73) = CHR 0x53" "to_upper (CHR 0x74) = CHR 0x54"
  "to_upper (CHR 0x75) = CHR 0x55" "to_upper (CHR 0x76) = CHR 0x56" "to_upper (CHR 0x77) = CHR 0x57"
  "to_upper (CHR 0x78) = CHR 0x58" "to_upper (CHR 0x79) = CHR 0x59" "to_upper (CHR 0x7A) = CHR 0x5A"
  "to_upper (CHR 0x7B) = CHR 0x7B" "to_upper (CHR 0x7C) = CHR 0x7C" "to_upper (CHR 0x7D) = CHR 0x7D"
  "to_upper (CHR 0x7E) = CHR 0x7E" "to_upper (CHR 0x7F) = CHR 0x7F"
  by (simp_all add: to_upper_def code_def char_of_code)

lemma to_lower_ascii:
  "to_lower (CHR 0x00) = CHR 0x00" "to_lower (CHR 0x01) = CHR 0x01" "to_lower (CHR 0x02) = CHR 0x02"
  "to_lower (CHR 0x03) = CHR 0x03" "to_lower (CHR 0x04) = CHR 0x04" "to_lower (CHR 0x05) = CHR 0x05"
  "to_lower (CHR 0x06) = CHR 0x06" "to_lower (CHR 0x07) = CHR 0x07" "to_lower (CHR 0x08) = CHR 0x08"
  "to_lower (CHR 0x09) = CHR 0x09" "to_lower (CHR 0x0A) = CHR 0x0A" "to_lower (CHR 0x0B) = CHR 0x0B"
  "to_lower (CHR 0x0C) = CHR 0x0C" "to_lower (CHR 0x0D) = CHR 0x0D" "to_lower (CHR 0x0E) = CHR 0x0E"
  "to_lower (CHR 0x0F) = CHR 0x0F" "to_lower (CHR 0x10) = CHR 0x10" "to_lower (CHR 0x11) = CHR 0x11"
  "to_lower (CHR 0x12) = CHR 0x12" "to_lower (CHR 0x13) = CHR 0x13" "to_lower (CHR 0x14) = CHR 0x14"
  "to_lower (CHR 0x15) = CHR 0x15" "to_lower (CHR 0x16) = CHR 0x16" "to_lower (CHR 0x17) = CHR 0x17"
  "to_lower (CHR 0x18) = CHR 0x18" "to_lower (CHR 0x19) = CHR 0x19" "to_lower (CHR 0x1A) = CHR 0x1A"
  "to_lower (CHR 0x1B) = CHR 0x1B" "to_lower (CHR 0x1C) = CHR 0x1C" "to_lower (CHR 0x1D) = CHR 0x1D"
  "to_lower (CHR 0x1E) = CHR 0x1E" "to_lower (CHR 0x1F) = CHR 0x1F" "to_lower (CHR 0x20) = CHR 0x20"
  "to_lower (CHR 0x21) = CHR 0x21" "to_lower (CHR 0x22) = CHR 0x22" "to_lower (CHR 0x23) = CHR 0x23"
  "to_lower (CHR 0x24) = CHR 0x24" "to_lower (CHR 0x25) = CHR 0x25" "to_lower (CHR 0x26) = CHR 0x26"
  "to_lower (CHR 0x27) = CHR 0x27" "to_lower (CHR 0x28) = CHR 0x28" "to_lower (CHR 0x29) = CHR 0x29"
  "to_lower (CHR 0x2A) = CHR 0x2A" "to_lower (CHR 0x2B) = CHR 0x2B" "to_lower (CHR 0x2C) = CHR 0x2C"
  "to_lower (CHR 0x2D) = CHR 0x2D" "to_lower (CHR 0x2E) = CHR 0x2E" "to_lower (CHR 0x2F) = CHR 0x2F"
  "to_lower (CHR 0x30) = CHR 0x30" "to_lower (CHR 0x31) = CHR 0x31" "to_lower (CHR 0x32) = CHR 0x32"
  "to_lower (CHR 0x33) = CHR 0x33" "to_lower (CHR 0x34) = CHR 0x34" "to_lower (CHR 0x35) = CHR 0x35"
  "to_lower (CHR 0x36) = CHR 0x36" "to_lower (CHR 0x37) = CHR 0x37" "to_lower (CHR 0x38) = CHR 0x38"
  "to_lower (CHR 0x39) = CHR 0x39" "to_lower (CHR 0x3A) = CHR 0x3A" "to_lower (CHR 0x3B) = CHR 0x3B"
  "to_lower (CHR 0x3C) = CHR 0x3C" "to_lower (CHR 0x3D) = CHR 0x3D" "to_lower (CHR 0x3E) = CHR 0x3E"
  "to_lower (CHR 0x3F) = CHR 0x3F" "to_lower (CHR 0x40) = CHR 0x40" "to_lower (CHR 0x41) = CHR 0x61"
  "to_lower (CHR 0x42) = CHR 0x62" "to_lower (CHR 0x43) = CHR 0x63" "to_lower (CHR 0x44) = CHR 0x64"
  "to_lower (CHR 0x45) = CHR 0x65" "to_lower (CHR 0x46) = CHR 0x66" "to_lower (CHR 0x47) = CHR 0x67"
  "to_lower (CHR 0x48) = CHR 0x68" "to_lower (CHR 0x49) = CHR 0x69" "to_lower (CHR 0x4A) = CHR 0x6A"
  "to_lower (CHR 0x4B) = CHR 0x6B" "to_lower (CHR 0x4C) = CHR 0x6C" "to_lower (CHR 0x4D) = CHR 0x6D"
  "to_lower (CHR 0x4E) = CHR 0x6E" "to_lower (CHR 0x4F) = CHR 0x6F" "to_lower (CHR 0x50) = CHR 0x70"
  "to_lower (CHR 0x51) = CHR 0x71" "to_lower (CHR 0x52) = CHR 0x72" "to_lower (CHR 0x53) = CHR 0x73"
  "to_lower (CHR 0x54) = CHR 0x74" "to_lower (CHR 0x55) = CHR 0x75" "to_lower (CHR 0x56) = CHR 0x76"
  "to_lower (CHR 0x57) = CHR 0x77" "to_lower (CHR 0x58) = CHR 0x78" "to_lower (CHR 0x59) = CHR 0x79"
  "to_lower (CHR 0x5A) = CHR 0x7A" "to_lower (CHR 0x5B) = CHR 0x5B" "to_lower (CHR 0x5C) = CHR 0x5C"
  "to_lower (CHR 0x5D) = CHR 0x5D" "to_lower (CHR 0x5E) = CHR 0x5E" "to_lower (CHR 0x5F) = CHR 0x5F"
  "to_lower (CHR 0x60) = CHR 0x60" "to_lower (CHR 0x61) = CHR 0x61" "to_lower (CHR 0x62) = CHR 0x62"
  "to_lower (CHR 0x63) = CHR 0x63" "to_lower (CHR 0x64) = CHR 0x64" "to_lower (CHR 0x65) = CHR 0x65"
  "to_lower (CHR 0x66) = CHR 0x66" "to_lower (CHR 0x67) = CHR 0x67" "to_lower (CHR 0x68) = CHR 0x68"
  "to_lower (CHR 0x69) = CHR 0x69" "to_lower (CHR 0x6A) = CHR 0x6A" "to_lower (CHR 0x6B) = CHR 0x6B"
  "to_lower (CHR 0x6C) = CHR 0x6C" "to_lower (CHR 0x6D) = CHR 0x6D" "to_lower (CHR 0x6E) = CHR 0x6E"
  "to_lower (CHR 0x6F) = CHR 0x6F" "to_lower (CHR 0x70) = CHR 0x70" "to_lower (CHR 0x71) = CHR 0x71"
  "to_lower (CHR 0x72) = CHR 0x72" "to_lower (CHR 0x73) = CHR 0x73" "to_lower (CHR 0x74) = CHR 0x74"
  "to_lower (CHR 0x75) = CHR 0x75" "to_lower (CHR 0x76) = CHR 0x76" "to_lower (CHR 0x77) = CHR 0x77"
  "to_lower (CHR 0x78) = CHR 0x78" "to_lower (CHR 0x79) = CHR 0x79" "to_lower (CHR 0x7A) = CHR 0x7A"
  "to_lower (CHR 0x7B) = CHR 0x7B" "to_lower (CHR 0x7C) = CHR 0x7C" "to_lower (CHR 0x7D) = CHR 0x7D"
  "to_lower (CHR 0x7E) = CHR 0x7E" "to_lower (CHR 0x7F) = CHR 0x7F"
  by (simp_all add: to_lower_def code_def char_of_code)

lemma length_Cons_Suc: "length (x # xs) = Suc (length xs)"
  by simp

lemma rev_dropWhile_rev_Cons:
  "rev (dropWhile P (rev (c # t))) =
     (case rev (dropWhile P (rev t)) of [] \<Rightarrow> (if P c then [] else [c]) | x # xs \<Rightarrow> c # x # xs)"
proof (cases "\<forall>x\<in>set (rev t). P x")
  case True
  then have d: "dropWhile P (rev t) = []"
    by simp
  from True show ?thesis
    by (simp add: dropWhile_append d)
next
  case False
  then have "dropWhile P (rev t) \<noteq> []"
    by simp
  then obtain x xs where d: "rev (dropWhile P (rev t)) = x # xs"
    by (cases "rev (dropWhile P (rev t))") auto
  then have d': "dropWhile P (rev t) = rev (x # xs)"
    by (metis rev_rev_ident)
  from False show ?thesis
    by (simp add: dropWhile_append d')
qed

lemma rstrip_Nil: "rstrip [] = []"
  by (simp add: rstrip_def)

lemma rstrip_Cons:
  "rstrip (c # t) = (case rstrip t of [] \<Rightarrow> (if is_space c then [] else [c]) | x # xs \<Rightarrow> c # x # xs)"
  unfolding rstrip_def by (rule rev_dropWhile_rev_Cons)

lemma rstrip_chars_Nil: "rstrip_chars cs [] = []"
  by (simp add: rstrip_chars_def)

lemma rstrip_chars_Cons:
  "rstrip_chars cs (c # t) =
     (case rstrip_chars cs t of [] \<Rightarrow> (if c \<in> set cs then [] else [c]) | x # xs \<Rightarrow> c # x # xs)"
  unfolding rstrip_chars_def by (rule rev_dropWhile_rev_Cons)

lemma startswith_Nil: "startswith s [] \<longleftrightarrow> True"
  by (simp add: startswith_def)

lemma startswith_Cons_Nil: "startswith [] (c # p) \<longleftrightarrow> False"
  by (simp add: startswith_def)

lemma startswith_Cons_Cons: "startswith (d # s) (c # p) \<longleftrightarrow> d = c \<and> startswith s p"
  by (auto simp: startswith_def)

lemma re_search_skip:
  "c \<noteq> k \<Longrightarrow> re_search (WordB # Lit k # r) p (c # t) = re_search (WordB # Lit k # r) (Some c) t"
  by simp

lemma re_findall_Nil: "re_findall (WordB # Lit k # r) p [] = []"
  by (simp add: re_findall.simps [of _ _ "[]"])

lemma re_findall_skip:
  "c \<noteq> k \<Longrightarrow> re_findall (WordB # Lit k # r) p (c # t) = re_findall (WordB # Lit k # r) (Some c) t"
  by (simp add: re_findall.simps [of _ _ "c # t"])

lemma re_findall_Cons:
  "re_findall pat p (c # t) =
     (case rmatch pat p (c # t) None of
        Some (s', g) \<Rightarrow>
          (if length s' < Suc (length t)
           then group_text g # re_findall pat (Some (last (take (Suc (length t) - length s') (c # t)))) s'
           else group_text g # re_findall pat (Some c) t)
      | None \<Rightarrow> re_findall pat (Some c) t)"
  by (simp add: re_findall.simps [of _ _ "c # t"] split: option.splits prod.splits)

lemmas text_eval =
  upper_def lower_def strip_def lstrip_def rstrip_Nil rstrip_Cons rstrip_chars_Nil rstrip_chars_Cons
  startswith_Nil startswith_Cons_Nil startswith_Cons_Cons
  is_space_ascii is_digit_ascii is_word_ascii to_upper_ascii to_lower_ascii in_class.simps
  list.map append.simps rev.simps list.case list.inject list.distinct list.set
  takeWhile.simps dropWhile.simps take_Suc_Cons take_0 drop_Suc_Cons drop_0 last.simps
  upt.simps length_Cons_Suc list.size(3) find.simps first_some.simps
  One_nat_def Suc_less_eq zero_less_Suc not_less_zero Suc_le_mono le0 le_zero_eq
  nat.distinct nat.inject diff_Suc_Suc minus_nat.diff_0 diff_0_eq_0
  option.case option.inject option.distinct prod.case if_True if_False simp_thms char.inject
  Un_iff insert_iff empty_iff de_Morgan_disj de_Morgan_conj not_not

lemmas regex_eval =
  keyword_pattern_def from_pattern_def join_pattern_def with_pattern_def
  limit_pattern_def limit_value_pattern_def forbidden_keywords_def
  find_forbidden_def find_invalid_table_def table_refs_def valid_tables_def
  at_boundary_def word_before_def word_after_def run_lengths_def group_text_def
  rmatch.simps re_search_skip re_search.simps re_findall_Nil re_findall_skip re_findall_Cons

lemmas eval_cong = if_weak_cong option.case_cong_weak list.case_cong_weak

section \<open>The validator, check by check\<close>

lemma first_some_None_iff: "first_some xs = None \<longleftrightarrow> (\<forall>x\<in>set xs. x = None)"
  by (induction xs) (auto split: option.splits)

lemma rmatch_lits:
  "rmatch (map Lit w @ r) p s g =
     (if w = [] then rmatch r p s g
      else if take (length w) s = w then rmatch r (Some (last w)) (drop (length w) s) g else None)"
proof (induction w arbitrary: p s)
  case Nil
  show ?case by simp
next
  case (Cons c w)
  show ?case
  proof (cases s)
    case Nil
    then show ?thesis by simp
  next
    case (Cons d t)
    with Cons.IH [of "Some d" t] show ?thesis by auto
  qed
qed

lemma rmatch_limit_tail:
  "rmatch [Plus Space, GroupPlus Digit] p s g = None \<longleftrightarrow> rmatch [Plus Space, Plus Digit] p s g' = None"
  by (simp add: first_some_None_iff)

lemma rmatch_limit_lits:
  "rmatch (map Lit w @ [Plus Space, GroupPlus Digit]) p s g = None \<longleftrightarrow>
   rmatch (map Lit w @ [Plus Space, Plus Digit]) p s g' = None"
  unfolding rmatch_lits using rmatch_limit_tail [of _ _ g g'] by (auto simp del: rmatch.simps)

lemma rmatch_limit_patterns:
  "rmatch limit_value_pattern p s g = None \<longleftrightarrow> rmatch limit_pattern p s g' = None"
  unfolding limit_value_pattern_def limit_pattern_def rmatch.simps(3)
  using rmatch_limit_lits [of "''LIMIT''" p s g g'] by (auto simp del: rmatch.simps list.map)

lemma re_search_limit_patterns:
  "re_search limit_value_pattern p s = None \<longleftrightarrow> re_search limit_pattern p s = None"
proof (induction s arbitrary: p)
  case Nil
  show ?case using rmatch_limit_patterns [of p "[]" None None] by simp
next
  case (Cons c t)
  show ?case using rmatch_limit_patterns [of p "c # t" None None] Cons.IH [of "Some c"]
    by (auto split: option.splits)
qed

text \<open>
  What \<^verbatim>\<open>sql_validation_node\<close> returns, by the check that decides. The two LIMIT patterns
  differ in the group only, so they match at the same places.
\<close>

lemma validation_empty:
  assumes "deepseek_sql state = Some q" and "strip q = []"
  shows "sql_validation_node state = Inr (state\<lparr>sql_error := Some EmptyQuery, validated_sql := None\<rparr>)"
  using assms by (simp add: sql_validation_node_def Let_def)

lemma validation_form:
  assumes "deepseek_sql state = Some q" and "strip q \<noteq> []"
    and "\<not> (startswith (strip (upper q)) ''SELECT'' \<or> startswith (strip (upper q)) ''WITH'')"
  shows "sql_validation_node state =
    Inr (state\<lparr>sql_error := Some DisallowedStatementForm, validated_sql := None\<rparr>)"
proof -
  from assms(2) have "q \<noteq> []" by (auto simp: strip_def lstrip_def rstrip_def)
  with assms show ?thesis by (auto simp: sql_validation_node_def Let_def)
qed

lemma validation_keyword:
  assumes "deepseek_sql state = Some q" and "strip q \<noteq> []"
    and "startswith (strip (upper q)) ''SELECT'' \<or> startswith (strip (upper q)) ''WITH''"
    and "find_forbidden (strip (upper q)) = Some keyword"
  shows "sql_validation_node state =
    Inr (state\<lparr>sql_error := Some (ForbiddenKeyword keyword), validated_sql := None\<rparr>)"
proof -
  from assms(2) have "q \<noteq> []" by (auto simp: strip_def lstrip_def rstrip_def)
  with assms show ?thesis by (auto simp: sql_validation_node_def Let_def)
qed

lemma validation_table:
  assumes "deepseek_sql state = Some q" and "strip q \<noteq> []"
    and "startswith (strip (upper q)) ''SELECT'' \<or> startswith (strip (upper q)) ''WITH''"
    and "find_forbidden (strip (upper q)) = None"
    and "find_invalid_table (strip (upper q)) = Some table_ref"
  shows "sql_validation_node state =
    Inr (state\<lparr>sql_error := Some (InvalidTableReference table_ref), validated_sql := None\<rparr>)"
proof -
  from assms(2) have "q \<noteq> []" by (auto simp: strip_def lstrip_def rstrip_def)
  with assms show ?thesis by (auto simp: sql_validation_node_def Let_def)
qed

lemma validation_no_limit:
  assumes "deepseek_sql state = Some q" and "strip q \<noteq> []"
    and "startswith (strip (upper q)) ''SELECT'' \<or> startswith (strip (upper q)) ''WITH''"
    and "find_forbidden (strip (upper q)) = None"
    and "find_invalid_table (strip (upper q)) = None"
    and "re_search limit_pattern None (strip (upper q)) = None"
  shows "sql_validation_node state =
    Inr (state\<lparr>sql_error := None,
               deepseek_sql := Some (strip (rstrip_chars '';'' q) @ '' LIMIT 1000''),
               validated_sql := Some (strip (rstrip_chars '';'' q) @ '' LIMIT 1000'')\<rparr>)"
proof -
  from assms(2) have "q \<noteq> []" by (auto simp: strip_def lstrip_def rstrip_def)
  moreover from assms(6) have "re_search limit_value_pattern None (strip (upper q)) = None"
    by (simp add: re_search_limit_patterns)
  ultimately show ?thesis using assms by (auto simp: sql_validation_node_def limit_step_def Let_def)
qed

lemma validation_limit_ok:
  assumes "deepseek_sql state = Some q" and "strip q \<noteq> []"
    and "startswith (strip (upper q)) ''SELECT'' \<or> startswith (strip (upper q)) ''WITH''"
    and "find_forbidden (strip (upper q)) = None"
    and "find_invalid_table (strip (upper q)) = None"
    and "re_search limit_value_pattern None (strip (upper q)) = Some (rest, Some digits)"
    and "int_of_digits digits \<le> 1000"
  shows "sql_validation_node state = Inr (state\<lparr>sql_error := None, validated_sql := Some q\<rparr>)"
proof -
  from assms(2) have "q \<noteq> []" by (auto simp: strip_def lstrip_def rstrip_def)
  moreover from assms(6) have "re_search limit_pattern None (strip (upper q)) \<noteq> None"
    using re_search_limit_patterns [of None "strip (upper q)"] by simp
  ultimately show ?thesis using assms
    by (auto simp: sql_validation_node_def limit_step_def Let_def group_text_def)
qed

lemma validation_limit_exceeded:
  assumes "deepseek_sql state = Some q" and "strip q \<noteq> []"
    and "startswith (strip (upper q)) ''SELECT'' \<or> startswith (strip (upper q)) ''WITH''"
    and "find_forbidden (strip (upper q)) = None"
    and "find_invalid_table (strip (upper q)) = None"
    and "re_search limit_value_pattern None (strip (upper q)) = Some (rest, Some digits)"
    and "int_of_digits digits > 1000"
  shows "sql_validation_node state =
    Inr (state\<lparr>sql_error := Some (LimitExceeded (int_of_digits digits)), validated_sql := None\<rparr>)"
proof -
  from assms(2) have "q \<noteq> []" by (auto simp: strip_def lstrip_def rstrip_def)
  moreover from assms(6) have "re_search limit_pattern None (strip (upper q)) \<noteq> None"
    using re_search_limit_patterns [of None "strip (upper q)"] by simp
  ultimately show ?thesis using assms
    by (auto simp: sql_validation_node_def limit_step_def Let_def group_text_def)
qed

section \<open>Runs of the graph\<close>

lemma run_from_raise:
  "run_node env n state = Inl e \<Longrightarrow> run_from env n state = ([], Some e)"
  by (simp add: run_from.simps [of env n state])

lemma run_from_end:
  "run_node env n state = Inr (state', cs) \<Longrightarrow> next_node n state' = None \<Longrightarrow>
     run_from env n state = ([(n, state', cs)], None)"
  by (simp add: run_from.simps [of env n state])

lemma run_from_step:
  "run_node env n state = Inr (state', cs) \<Longrightarrow> next_node n state' = Some n' \<Longrightarrow>
     run_from env n state = ((n, state', cs) # fst (run_from env n' state'), snd (run_from env n' state'))"
  by (simp add: run_from.simps [of env n state] split: prod.splits)

lemma run_from_invariant:
  assumes "\<And>n s s' cs. P n s \<Longrightarrow> run_node env n s = Inr (s', cs) \<Longrightarrow>
      Q n s' \<and> (\<forall>n'. next_node n s' = Some n' \<longrightarrow> P n' s')"
  shows "P n state \<Longrightarrow> (m, state', cs) \<in> set (fst (run_from env n state)) \<Longrightarrow> Q m state'"
  using assms
proof (induction env n state rule: run_from.induct)
  case (1 env n state)
  note step = "1.prems"(3)
  show ?case
  proof (cases "run_node env n state")
    case (Inl e)
    with "1.prems"(2) show ?thesis by (simp add: run_from_raise)
  next
    case (Inr r)
    obtain s1 c1 where r: "run_node env n state = Inr (s1, c1)"
      using Inr by (cases r) auto
    from step [OF "1.prems"(1) r] have q: "Q n s1"
      and p: "\<And>n'. next_node n s1 = Some n' \<Longrightarrow> P n' s1" by auto
    show ?thesis
    proof (cases "next_node n s1")
      case None
      with r "1.prems"(2) q show ?thesis by (auto simp: run_from_end)
    next
      case (Some n')
      from "1.prems"(2) have "(m, state', cs) = (n, s1, c1) \<or> (m, state', cs) \<in> set (fst (run_from env n' s1))"
        by (simp add: run_from_step [OF r Some])
      then show ?thesis
      proof
        assume "(m, state', cs) = (n, s1, c1)"
        with q show ?thesis by simp
      next
        assume mem: "(m, state', cs) \<in> set (fst (run_from env n' s1))"
        show ?thesis
          by (rule "1.IH" [OF r refl Some p [OF Some] mem]) (rule step)
      qed
    qed
  qed
qed

lemma final_state_Cons: "final_state state ((n, state', cs) # steps) = final_state state' steps"
proof (cases steps rule: rev_cases)
  case Nil
  then show ?thesis by (simp add: final_state_def)
next
  case (snoc ys y)
  then show ?thesis by (simp add: final_state_def split: prod.splits)
qed

lemma run_from_answer_error:
  assumes "truthy (sql_error state)"
  shows "run_from env GenerateAnswer state =
    ([(GenerateAnswer, state\<lparr>final_answer := Some (''Error: '' @ str_opt (sql_error state))\<rparr>, []),
      (Output, state\<lparr>final_answer := Some (''Error: '' @ str_opt (sql_error state))\<rparr>, [])], None)"
proof -
  let ?answered = "state\<lparr>final_answer := Some (''Error: '' @ str_opt (sql_error state))\<rparr>"
  have a: "run_node env GenerateAnswer state = Inr (?answered, [])"
    using assms by (simp add: answer_generation_node_def)
  have out: "run_node env Output ?answered = Inr (?answered, [])"
    by (simp add: output_node_def)
  have "run_from env Output ?answered = ([(Output, ?answered, [])], None)"
    by (rule run_from_end [OF out]) simp
  then show ?thesis
    using run_from_step [OF a, of Output] by simp
qed

section \<open>The repair counter\<close>

lemma sql_validation_node_repair_count:
  "sql_validation_node state = Inr state' \<Longrightarrow> repair_count state' = repair_count state"
  by (auto simp: sql_validation_node_def limit_step_def Let_def
      split: option.splits if_splits prod.splits)

lemma sql_repair_node_repair_count:
  "sql_repair_node env state = Inr (state', cs) \<Longrightarrow>
     repair_count state' = (if repair_count state < MAX_REPAIR_ATTEMPTS then repair_count state + 1
                            else repair_count state)"
  by (auto simp: sql_repair_node_def Let_def split: option.splits if_splits sum.splits)

lemma sql_generation_node_repair_count:
  "repair_count (fst (sql_generation_node env state)) = repair_count state"
  by (simp add: sql_generation_node_def split: sum.splits option.splits)

lemma sql_execution_node_repair_count:
  "repair_count (fst (sql_execution_node env state)) = repair_count state"
  by (simp add: sql_execution_node_def Let_def split: sum.splits prod.splits)

lemma answer_generation_node_repair_count:
  "repair_count (fst (answer_generation_node env state)) = repair_count state"
  by (simp add: answer_generation_node_def split: sum.splits)

lemma run_node_other_repair_count:
  "n \<noteq> RepairSql \<Longrightarrow> run_node env n state = Inr (state', cs) \<Longrightarrow> repair_count state' = repair_count state"
  using sql_generation_node_repair_count [of env state]
        sql_execution_node_repair_count [of env state]
        answer_generation_node_repair_count [of env state]
  by (cases n) (auto simp: input_node_def output_node_def split: sum.splits
      dest: sql_validation_node_repair_count)

lemma run_node_repair_count_le:
  assumes "run_node env n state = Inr (state', cs)" "repair_count state \<le> MAX_REPAIR_ATTEMPTS"
  shows "repair_count state' \<le> MAX_REPAIR_ATTEMPTS"
proof (cases "n = RepairSql")
  case True
  with assms show ?thesis by (auto dest!: sql_repair_node_repair_count split: if_splits)
next
  case False
  with assms show ?thesis by (simp add: run_node_other_repair_count)
qed

lemma run_from_repair_count_le:
  assumes "repair_count state \<le> MAX_REPAIR_ATTEMPTS"
    and "(m, state', cs) \<in> set (fst (run_from env n state))"
  shows "repair_count state' \<le> MAX_REPAIR_ATTEMPTS"
  using run_from_invariant [where P = "\<lambda>n s. repair_count s \<le> MAX_REPAIR_ATTEMPTS"
      and Q = "\<lambda>n s. repair_count s \<le> MAX_REPAIR_ATTEMPTS" and env = env and n = n and state = state]
    run_node_repair_count_le assms
  by blast

lemma sql_repair_node_counts:
  assumes "deepseek_sql state = Some previous_sql" and "repair_count state < MAX_REPAIR_ATTEMPTS"
  shows "\<exists>state'. sql_repair_node env state = Inr (state', [RepairCall]) \<and>
           repair_count state' = repair_count state + 1 \<and>
           (\<forall>e. repair_call env (repair_count state) = Inl e \<longrightarrow> sql_error state' = Some (RepairFailed e))"
  using assms by (auto simp: sql_repair_node_def Let_def split: sum.splits)

section \<open>A backend that never fixes the query\<close>

lemma drop_table_rejected:
  assumes "deepseek_sql state = Some ''DROP TABLE nyc_311''"
  shows "sql_validation_node state =
    Inr (state\<lparr>sql_error := Some DisallowedStatementForm, validated_sql := None\<rparr>)"
proof (rule validation_form)
  show "deepseek_sql state = Some ''DROP TABLE nyc_311''" by fact
  show "strip ''DROP TABLE nyc_311'' \<noteq> []"
    by (simp only: text_eval cong: eval_cong)
  show "\<not> (startswith (strip (upper ''DROP TABLE nyc_311'')) ''SELECT'' \<or>
            startswith (strip (upper ''DROP TABLE nyc_311'')) ''WITH'')"
    by (simp only: text_eval cong: eval_cong)
qed

text \<open>
  What the repairer and the generator leave as they are.
\<close>

lemma sql_repair_node_frame:
  assumes "deepseek_sql state = Some previous_sql" and "repair_count state < MAX_REPAIR_ATTEMPTS"
  shows "\<exists>state'. sql_repair_node env state = Inr (state', [RepairCall]) \<and>
    repair_count state' = repair_count state + 1 \<and>
    result_rows state' = result_rows state \<and> result_columns state' = result_columns state"
  using assms by (auto simp: sql_repair_node_def Let_def split: sum.splits)

lemma sql_generation_node_frame:
  "snd (sql_generation_node env state) = [GenerationCall] \<and>
   result_rows (fst (sql_generation_node env state)) = result_rows state \<and>
   result_columns (fst (sql_generation_node env state)) = result_columns state"
  by (simp add: sql_generation_node_def split: sum.splits option.splits)

text \<open>
  When the candidate is \<^verbatim>\<open>DROP TABLE nyc_311\<close> after every repair, the loop between the
  validator and the repairer runs until the budget is used up and then goes to the
  answerer. What is observed of the run is the nodes run, the backend calls made, the
  exception raised and the state at the end.
\<close>

lemma stubborn_loop:
  assumes "\<And>s s' cs. deepseek_sql s = Some ''DROP TABLE nyc_311'' \<Longrightarrow>
      sql_repair_node env s = Inr (s', cs) \<Longrightarrow> deepseek_sql s' = Some ''DROP TABLE nyc_311''"
    and "deepseek_sql state = Some ''DROP TABLE nyc_311''"
    and "repair_count state \<le> 2"
  shows "map fst (fst (run_from env ValidateSql state)) =
      concat (replicate (2 - repair_count state) [ValidateSql, RepairSql])
        @ [ValidateSql, GenerateAnswer, Output] \<and>
    concat (map (\<lambda>(n, s, cs). cs) (fst (run_from env ValidateSql state))) =
      replicate (2 - repair_count state) RepairCall \<and>
    snd (run_from env ValidateSql state) = None \<and>
    final_answer (final_state state (fst (run_from env ValidateSql state))) =
      Some (''Error: '' @ DisallowedStatementForm) \<and>
    sql_error (final_state state (fst (run_from env ValidateSql state))) = Some DisallowedStatementForm \<and>
    validated_sql (final_state state (fst (run_from env ValidateSql state))) = None \<and>
    repair_count (final_state state (fst (run_from env ValidateSql state))) = 2 \<and>
    result_rows (final_state state (fst (run_from env ValidateSql state))) = result_rows state \<and>
    result_columns (final_state state (fst (run_from env ValidateSql state))) = result_columns state"
  using assms(2,3)
proof (induction "2 - repair_count state" arbitrary: state)
  case 0
  let ?v = "state\<lparr>sql_error := Some DisallowedStatementForm, validated_sql := None\<rparr>"
  have v: "run_node env ValidateSql state = Inr (?v, [])"
    using drop_table_rejected [OF "0.prems"(1)] by simp
  from 0 have c: "repair_count state = 2" by simp
  have n: "next_node ValidateSql ?v = Some GenerateAnswer"
    by (simp add: should_repair_def truthy_def DisallowedStatementForm_def MAX_REPAIR_ATTEMPTS_def c)
  have t: "truthy (sql_error ?v)"
    by (simp add: truthy_def DisallowedStatementForm_def)
  show ?case
    by (simp add: run_from_step [OF v n] run_from_answer_error [OF t] final_state_def c str_opt_def)
next
  case (Suc k)
  let ?v = "state\<lparr>sql_error := Some DisallowedStatementForm, validated_sql := None\<rparr>"
  have v: "run_node env ValidateSql state = Inr (?v, [])"
    using drop_table_rejected [OF Suc.prems(1)] by simp
  from Suc have c: "repair_count state < 2" by simp
  have n: "next_node ValidateSql ?v = Some RepairSql"
    using c by (simp add: should_repair_def truthy_def DisallowedStatementForm_def MAX_REPAIR_ATTEMPTS_def)
  have dv: "deepseek_sql ?v = Some ''DROP TABLE nyc_311''"
    using Suc.prems(1) by simp
  have cv: "repair_count ?v < MAX_REPAIR_ATTEMPTS"
    using c by (simp add: MAX_REPAIR_ATTEMPTS_def)
  from sql_repair_node_frame [OF dv cv, of env] obtain r where
    rn: "sql_repair_node env ?v = Inr (r, [RepairCall])"
    and rc: "repair_count r = repair_count state + 1"
    and rr: "result_rows r = result_rows state" "result_columns r = result_columns state"
    by auto
  have rd: "deepseek_sql r = Some ''DROP TABLE nyc_311''"
    by (rule assms(1) [OF dv rn])
  have rn': "run_node env RepairSql ?v = Inr (r, [RepairCall])"
    using rn by simp
  have nn: "next_node RepairSql r = Some ValidateSql" by simp
  have k: "k = 2 - repair_count r" using Suc.hyps(2) rc by simp
  have le: "repair_count r \<le> 2" using c rc by simp
  note ih = Suc.hyps(1) [OF k rd le]
  have two: "2 - repair_count state = Suc (2 - repair_count r)"
    using c rc by simp
  show ?case
    using ih rr by (simp add: run_from_step [OF v n] run_from_step [OF rn' nn] final_state_Cons two)
qed

lemma final_state_last: "steps \<noteq> [] \<Longrightarrow> final_state state steps = fst (snd (last steps))"
  by (cases steps rule: rev_cases) (auto simp: final_state_def)

lemma stubborn_run:
  assumes "get_schema env = Inr u"
    and "deepseek_sql (fst (sql_generation_node env (initial_context question))) =
      Some ''DROP TABLE nyc_311''"
    and "\<forall>state state' cs. deepseek_sql state = Some ''DROP TABLE nyc_311'' \<and>
      sql_repair_node env state = Inr (state', cs) \<longrightarrow> deepseek_sql state' = Some ''DROP TABLE nyc_311''"
  shows "map fst (fst (run_from env Input (initial_context question))) =
      [Input, GenerateSql, ValidateSql, RepairSql, ValidateSql, RepairSql, ValidateSql,
       GenerateAnswer, Output] \<and>
    concat (map (\<lambda>(n, s, cs). cs) (fst (run_from env Input (initial_context question)))) =
      [GenerationCall, RepairCall, RepairCall] \<and>
    repair_count (final_state (initial_context question)
      (fst (run_from env Input (initial_context question)))) = 2 \<and>
    run_agent env question =
      Inr \<lparr>answer_text = Some ''Error: SQL must start with SELECT or WITH'', sql = None,
           columns = [], rows = [], error = Some ''SQL must start with SELECT or WITH''\<rparr>"
proof -
  let ?s0 = "initial_context question"
  define s1 where "s1 = fst (sql_generation_node env ?s0)"
  have i: "run_node env Input ?s0 = Inr (?s0, [])"
    by (simp add: input_node_def)
  have ni: "next_node Input ?s0 = Some GenerateSql" by simp
  have gn: "run_node env GenerateSql ?s0 = Inr (s1, [GenerationCall])"
    using sql_generation_node_frame [of env ?s0] by (simp add: s1_def prod_eq_iff)
  have ng: "next_node GenerateSql s1 = Some ValidateSql" by simp
  have r: "\<And>s s' cs. deepseek_sql s = Some ''DROP TABLE nyc_311'' \<Longrightarrow>
      sql_repair_node env s = Inr (s', cs) \<Longrightarrow> deepseek_sql s' = Some ''DROP TABLE nyc_311''"
    using assms(3) by blast
  have d: "deepseek_sql s1 = Some ''DROP TABLE nyc_311''"
    using assms(2) by (simp add: s1_def)
  have c0: "repair_count s1 = 0"
    using sql_generation_node_repair_count [of env ?s0] by (simp add: s1_def initial_context_def)
  then have c: "repair_count s1 \<le> 2" by simp
  note loop = stubborn_loop [of env s1, OF r d c]
  have obs: "map fst (fst (run_from env Input ?s0)) =
      [Input, GenerateSql, ValidateSql, RepairSql, ValidateSql, RepairSql, ValidateSql,
       GenerateAnswer, Output]"
    "concat (map (\<lambda>(n, s, cs). cs) (fst (run_from env Input ?s0))) =
      [GenerationCall, RepairCall, RepairCall]"
    "snd (run_from env Input ?s0) = None"
    "final_state ?s0 (fst (run_from env Input ?s0)) = final_state s1 (fst (run_from env ValidateSql s1))"
    using loop by (simp_all add: run_from_step [OF i ni] run_from_step [OF gn ng] final_state_Cons c0 numeral_2_eq_2)
  obtain steps where rf: "run_from env Input ?s0 = (steps, None)"
    using obs(3) by (cases "run_from env Input ?s0") auto
  let ?f = "final_state ?s0 steps"
  have e: "result_rows s1 = []" "result_columns s1 = []"
    using sql_generation_node_frame [of env ?s0] by (simp_all add: s1_def initial_context_def)
  have f: "final_answer ?f = Some ''Error: SQL must start with SELECT or WITH''"
    "sql_error ?f = Some ''SQL must start with SELECT or WITH''"
    "validated_sql ?f = None" "result_rows ?f = []" "result_columns ?f = []"
    using loop obs(4) rf e by (simp_all add: DisallowedStatementForm_def)
  have "run_agent env question =
      Inr \<lparr>answer_text = Some ''Error: SQL must start with SELECT or WITH'', sql = None,
           columns = [], rows = [], error = Some ''SQL must start with SELECT or WITH''\<rparr>"
    using assms(1) by (simp add: run_agent_def rf Let_def f)
  with obs loop show ?thesis by simp
qed

text \<open>The backend that proposes \<^verbatim>\<open>DROP TABLE nyc_311\<close> every time is such a backend.\<close>

lemma stubborn_backend_schema: "get_schema (stubborn_backend candidate) = Inr ()"
  by (simp add: stubborn_backend_def)

lemma stubborn_backend_generates:
  "deepseek_sql (fst (sql_generation_node (stubborn_backend candidate) (initial_context question))) =
     Some candidate"
  by (simp add: sql_generation_node_def stubborn_backend_def get_or_def)

lemma stubborn_backend_repairs:
  "\<forall>state state' cs. deepseek_sql state = Some candidate \<and>
      sql_repair_node (stubborn_backend candidate) state = Inr (state', cs)
        \<longrightarrow> deepseek_sql state' = Some candidate"
  by (auto simp: sql_repair_node_def stubborn_backend_def get_or_def Let_def split: if_splits)

section \<open>Routing after validation\<close>

text \<open>
  Claim C1. The edge out of the validator follows a priority order: a validated query
  leads to the executor; otherwise a recorded error with fewer than 2 repairs made leads
  to the repairer; otherwise a recorded error (the budget being used up) leads to the
  answerer, past the executor; otherwise (no validated query and no error) the executor
  is next.
\<close>

theorem routing_priority:
  "(truthy (validated_sql state) \<longrightarrow> next_node ValidateSql state = Some ExecuteSql) \<and>
   (\<not> truthy (validated_sql state) \<and> truthy (sql_error state) \<and> repair_count state < 2
      \<longrightarrow> next_node ValidateSql state = Some RepairSql) \<and>
   (\<not> truthy (validated_sql state) \<and> truthy (sql_error state) \<and> \<not> repair_count state < 2
      \<longrightarrow> next_node ValidateSql state = Some GenerateAnswer) \<and>
   (\<not> truthy (validated_sql state) \<and> \<not> truthy (sql_error state)
      \<longrightarrow> next_node ValidateSql state = Some ExecuteSql)"
  by (simp add: should_repair_def MAX_REPAIR_ATTEMPTS_def)

theorem routing_priority_witness:
  "truthy (validated_sql (example_state (Some ''SELECT 1 LIMIT 1'') None 0)) \<and>
   next_node ValidateSql (example_state (Some ''SELECT 1 LIMIT 1'') None 0) = Some ExecuteSql \<and>
   \<not> truthy (validated_sql (example_state None (Some EmptyQuery) 1)) \<and>
   truthy (sql_error (example_state None (Some EmptyQuery) 1)) \<and>
   repair_count (example_state None (Some EmptyQuery) 1) < 2 \<and>
   next_node ValidateSql (example_state None (Some EmptyQuery) 1) = Some RepairSql \<and>
   \<not> repair_count (example_state None (Some EmptyQuery) 2) < 2 \<and>
   next_node ValidateSql (example_state None (Some EmptyQuery) 2) = Some GenerateAnswer \<and>
   \<not> truthy (sql_error (example_state None None 0)) \<and>
   next_node ValidateSql (example_state None None 0) = Some ExecuteSql"
  using routing_priority [of "example_state (Some ''SELECT 1 LIMIT 1'') None 0"]
    routing_priority [of "example_state None (Some EmptyQuery) 1"]
    routing_priority [of "example_state None (Some EmptyQuery) 2"]
    routing_priority [of "example_state None None 0"]
  by (simp add: example_state_def truthy_def EmptyQuery_def)

section \<open>The executor and the answerer\<close>

lemma str_nat_3: "str_nat (Suc (Suc (Suc 0))) = ''3''"
proof -
  have "str_nat 3 = ''3''"
    by (simp add: str_nat.simps [of 3] char_of_code code_def)
  then show ?thesis
    by (simp add: numeral_3_eq_3)
qed

text \<open>
  Claim C9. When the execution of a validated query fails with some detail, the executor
  records the error \<open>ExecutionFailed detail\<close> and empties the result columns and rows;
  the run then goes to the answerer and to the output, not back to generation or repair;
  and the answerer makes no backend call: the final answer is \<open>Error:\<close> followed by the
  execution error with its detail.
\<close>

theorem execution_failure_is_terminal:
  assumes "truthy (validated_sql state)"
    and "run_query env (str_opt (validated_sql state)) = Inl detail"
  shows "run_from env ExecuteSql state =
    ([(ExecuteSql,
       state\<lparr>sql_error := Some (ExecutionFailed detail), result_columns := [], result_rows := []\<rparr>,
       [QueryCall (str_opt (validated_sql state))]),
      (GenerateAnswer,
       state\<lparr>sql_error := Some (ExecutionFailed detail), result_columns := [], result_rows := [],
             final_answer := Some (''Error: '' @ ExecutionFailed detail)\<rparr>, []),
      (Output,
       state\<lparr>sql_error := Some (ExecutionFailed detail), result_columns := [], result_rows := [],
             final_answer := Some (''Error: '' @ ExecutionFailed detail)\<rparr>, [])], None)"
proof -
  let ?failed = "state\<lparr>sql_error := Some (ExecutionFailed detail), result_columns := [], result_rows := []\<rparr>"
  let ?answered = "?failed\<lparr>final_answer := Some (''Error: '' @ ExecutionFailed detail)\<rparr>"
  have e: "run_node env ExecuteSql state = Inr (?failed, [QueryCall (str_opt (validated_sql state))])"
    using assms by (simp add: sql_execution_node_def Let_def)
  have a: "run_node env GenerateAnswer ?failed = Inr (?answered, [])"
    by (simp add: answer_generation_node_def truthy_def str_opt_def ExecutionFailed_def)
  have out: "run_node env Output ?answered = Inr (?answered, [])"
    by (simp add: output_node_def)
  have "run_from env Output ?answered = ([(Output, ?answered, [])], None)"
    by (rule run_from_end [OF out]) simp
  then have "run_from env GenerateAnswer ?failed = ([(GenerateAnswer, ?answered, []), (Output, ?answered, [])], None)"
    using run_from_step [OF a, of Output] by simp
  then show ?thesis
    using run_from_step [OF e, of GenerateAnswer] by simp
qed

theorem execution_failure_is_terminal_witness:
  "truthy (validated_sql (example_state (Some ''SELECT 1 LIMIT 1000'') None 0)) \<and>
   run_query failing_store (str_opt (validated_sql (example_state (Some ''SELECT 1 LIMIT 1000'') None 0)))
     = Inl ''Catalog Error'' \<and>
   snd (run_from failing_store ExecuteSql (example_state (Some ''SELECT 1 LIMIT 1000'') None 0)) = None \<and>
   map (\<lambda>(n, state, cs). (n, sql_error state, result_rows state, final_answer state, cs))
     (fst (run_from failing_store ExecuteSql (example_state (Some ''SELECT 1 LIMIT 1000'') None 0))) =
     [(ExecuteSql, Some ''SQL execution failed: Catalog Error'', [], None,
       [QueryCall ''SELECT 1 LIMIT 1000'']),
      (GenerateAnswer, Some ''SQL execution failed: Catalog Error'', [],
       Some ''Error: SQL execution failed: Catalog Error'', []),
      (Output, Some ''SQL execution failed: Catalog Error'', [],
       Some ''Error: SQL execution failed: Catalog Error'', [])]"
  using execution_failure_is_terminal
    [of "example_state (Some ''SELECT 1 LIMIT 1000'') None 0" failing_store "''Catalog Error''"]
  by (simp add: example_state_def initial_context_def failing_store_def truthy_def str_opt_def
      ExecutionFailed_def)

text \<open>
  Claim C10. With an error recorded the answerer makes no backend call and the final
  answer is \<open>Error:\<close> followed by the error. Without one, when its backend call fails with
  some detail, the final answer is the fixed sentence with the number of rows and the
  column names when there are rows, and the sentence about no results followed by the
  detail when there are none. In every case the node returns and the final answer is set.
\<close>

theorem answerer_never_fails:
  "(truthy (sql_error state) \<longrightarrow>
      answer_generation_node env state =
        (state\<lparr>final_answer := Some (''Error: '' @ str_opt (sql_error state))\<rparr>, [])) \<and>
   (\<not> truthy (sql_error state) \<and> answer_call env = Inl detail \<and> result_rows state \<noteq> [] \<longrightarrow>
      answer_generation_node env state =
        (state\<lparr>final_answer := Some (''Query executed successfully and returned ''
            @ str_nat (length (result_rows state)) @ '' rows. Columns: ''
            @ join '', '' (result_columns state))\<rparr>, [AnswerCall])) \<and>
   (\<not> truthy (sql_error state) \<and> answer_call env = Inl detail \<and> result_rows state = [] \<longrightarrow>
      answer_generation_node env state =
        (state\<lparr>final_answer := Some
            (''Query executed but returned no results. Error generating answer: '' @ detail)\<rparr>,
         [AnswerCall])) \<and>
   final_answer (fst (answer_generation_node env state)) \<noteq> None"
  by (simp add: answer_generation_node_def split: sum.splits)

theorem answerer_never_fails_witness:
  "truthy (sql_error (executed_state\<lparr>sql_error := Some (ExecutionFailed ''Catalog Error'')\<rparr>)) \<and>
   answer_generation_node backend_down (executed_state\<lparr>sql_error := Some (ExecutionFailed ''Catalog Error'')\<rparr>) =
     (executed_state\<lparr>sql_error := Some (ExecutionFailed ''Catalog Error''),
        final_answer := Some ''Error: SQL execution failed: Catalog Error''\<rparr>, []) \<and>
   \<not> truthy (sql_error executed_state) \<and> answer_call backend_down = Inl ''timeout'' \<and>
   result_rows executed_state \<noteq> [] \<and>
   answer_generation_node backend_down executed_state =
     (executed_state\<lparr>final_answer := Some
        ''Query executed successfully and returned 3 rows. Columns: borough, n''\<rparr>, [AnswerCall]) \<and>
   result_rows (executed_state\<lparr>result_rows := []\<rparr>) = [] \<and>
   answer_generation_node backend_down (executed_state\<lparr>result_rows := []\<rparr>) =
     (executed_state\<lparr>result_rows := [], final_answer := Some
        ''Query executed but returned no results. Error generating answer: timeout''\<rparr>, [AnswerCall])"
  using answerer_never_fails [of "executed_state\<lparr>sql_error := Some (ExecutionFailed ''Catalog Error'')\<rparr>" backend_down "''timeout''"]
    answerer_never_fails [of executed_state backend_down "''timeout''"]
    answerer_never_fails [of "executed_state\<lparr>result_rows := []\<rparr>" backend_down "''timeout''"]
  by (simp add: executed_state_def initial_context_def backend_down_def truthy_def str_opt_def
      ExecutionFailed_def str_nat_3)

section \<open>The run with a backend that never fixes the query\<close>

text \<open>
  Claim C3, amended. If the candidate is \<^verbatim>\<open>DROP TABLE nyc_311\<close> after generation and after
  every repair, the run makes two repair attempts, after which the routing goes to the
  answerer with the budget used up (\<open>repair_count = 2\<close>), past the executor and with no
  backend call for the answer. The error recorded is that of the statement-form check,
  which comes before the keyword scan, and the final answer is \<open>Error:\<close> followed by it:
  \<^verbatim>\<open>Error: SQL must start with SELECT or WITH\<close>.

  The hypotheses are on the candidate the nodes leave in the state. A generation whose
  reply makes a log line raise leaves no candidate, and is not such a run; a repair whose
  backend call fails leaves the previous candidate, and is.
\<close>

theorem stubborn_drop_table:
  assumes "get_schema env = Inr u"
    and "deepseek_sql (fst (sql_generation_node env (initial_context question))) =
      Some ''DROP TABLE nyc_311''"
    and "\<forall>state state' cs. deepseek_sql state = Some ''DROP TABLE nyc_311'' \<and>
      sql_repair_node env state = Inr (state', cs) \<longrightarrow> deepseek_sql state' = Some ''DROP TABLE nyc_311''"
  shows "map fst (fst (run_from env Input (initial_context question))) =
      [Input, GenerateSql, ValidateSql, RepairSql, ValidateSql, RepairSql, ValidateSql,
       GenerateAnswer, Output] \<and>
    concat (map (\<lambda>(n, s, cs). cs) (fst (run_from env Input (initial_context question)))) =
      [GenerationCall, RepairCall, RepairCall] \<and>
    repair_count (final_state (initial_context question)
      (fst (run_from env Input (initial_context question)))) = 2 \<and>
    run_agent env question =
      Inr \<lparr>answer_text = Some ''Error: SQL must start with SELECT or WITH'', sql = None,
           columns = [], rows = [], error = Some ''SQL must start with SELECT or WITH''\<rparr>"
  using assms by (rule stubborn_run)

theorem stubborn_drop_table_witness:
  "get_schema (stubborn_backend ''DROP TABLE nyc_311'') = Inr () \<and>
   deepseek_sql (fst (sql_generation_node (stubborn_backend ''DROP TABLE nyc_311'')
      (initial_context ''How many complaints are there?''))) = Some ''DROP TABLE nyc_311'' \<and>
   map fst (fst (run_from (stubborn_backend ''DROP TABLE nyc_311'') Input
      (initial_context ''How many complaints are there?''))) =
      [Input, GenerateSql, ValidateSql, RepairSql, ValidateSql, RepairSql, ValidateSql,
       GenerateAnswer, Output] \<and>
   answer_of (run_agent (stubborn_backend ''DROP TABLE nyc_311'') ''How many complaints are there?'') =
      Some ''Error: SQL must start with SELECT or WITH''"
  using stubborn_backend_schema [of "''DROP TABLE nyc_311''"]
    stubborn_backend_generates [of "''DROP TABLE nyc_311''" "''How many complaints are there?''"]
    stubborn_drop_table [OF stubborn_backend_schema [of "''DROP TABLE nyc_311''"]
      stubborn_backend_generates [of "''DROP TABLE nyc_311''" "''How many complaints are there?''"]
      stubborn_backend_repairs [of "''DROP TABLE nyc_311''"]]
  by (simp add: answer_of_def)

text \<open>
  As the claim states it, the final answer would be the text of the repairer's own
  budget check with the keyword error; the run above ends with another answer.
\<close>

theorem stubborn_drop_table_counterexample:
  "answer_of (run_agent (stubborn_backend ''DROP TABLE nyc_311'') ''How many complaints are there?'')
     \<noteq> Some ''Error: Maximum repair attempts (2) reached. Last error: Forbidden keyword found: DROP''"
  using stubborn_run [OF stubborn_backend_schema [of "''DROP TABLE nyc_311''"]
      stubborn_backend_generates [of "''DROP TABLE nyc_311''" "''How many complaints are there?''"]
      stubborn_backend_repairs [of "''DROP TABLE nyc_311''"]]
  by (simp add: answer_of_def)

section \<open>The repair budget\<close>

text \<open>
  Claim C2. The repair counter starts at 0. No node other than the repairer changes it.
  The repairer, run with fewer than 2 repairs made, adds one to it whatever its backend
  call does: when that call fails, the attempt is counted all the same and the error is
  \<open>RepairFailed\<close>. In every state of every run the counter is at most 2.
\<close>

theorem repair_count_bounded:
  "repair_count (initial_context question) = 0 \<and>
   (\<forall>n state state' cs. n \<noteq> RepairSql \<and> run_node env n state = Inr (state', cs)
      \<longrightarrow> repair_count state' = repair_count state) \<and>
   (\<forall>state previous_sql. deepseek_sql state = Some previous_sql \<and> repair_count state < 2
      \<longrightarrow> (\<exists>state'. run_node env RepairSql state = Inr (state', [RepairCall]) \<and>
             repair_count state' = repair_count state + 1 \<and>
             (\<forall>e. repair_call env (repair_count state) = Inl e
                \<longrightarrow> sql_error state' = Some (RepairFailed e)))) \<and>
   (\<forall>m state cs. (m, state, cs) \<in> set (fst (run_from env Input (initial_context question)))
      \<longrightarrow> repair_count state \<le> 2)"
proof (intro conjI allI impI)
  show "repair_count (initial_context question) = 0"
    by (simp add: initial_context_def)
next
  fix n state state' cs
  assume "n \<noteq> RepairSql \<and> run_node env n state = Inr (state', cs)"
  then show "repair_count state' = repair_count state"
    by (auto dest: run_node_other_repair_count)
next
  fix state :: Context and previous_sql
  assume "deepseek_sql state = Some previous_sql \<and> repair_count state < 2"
  then show "\<exists>state'. run_node env RepairSql state = Inr (state', [RepairCall]) \<and>
             repair_count state' = repair_count state + 1 \<and>
             (\<forall>e. repair_call env (repair_count state) = Inl e
                \<longrightarrow> sql_error state' = Some (RepairFailed e))"
    using sql_repair_node_counts [of state previous_sql env] by (simp add: MAX_REPAIR_ATTEMPTS_def)
next
  fix m state cs
  assume "(m, state, cs) \<in> set (fst (run_from env Input (initial_context question)))"
  then show "repair_count state \<le> 2"
    using run_from_repair_count_le [of "initial_context question" m state cs env Input]
    by (simp add: MAX_REPAIR_ATTEMPTS_def initial_context_def)
qed

theorem repair_count_bounded_witness:
  "GenerateSql \<noteq> RepairSql \<and>
   run_node backend_down GenerateSql (initial_context ''How many complaints are there?'') =
     Inr ((initial_context ''How many complaints are there?'')
            \<lparr>sql_error := Some ''SQL generation failed: timeout'', deepseek_sql := None\<rparr>,
          [GenerationCall]) \<and>
   repair_count ((initial_context ''How many complaints are there?'')
            \<lparr>sql_error := Some ''SQL generation failed: timeout'', deepseek_sql := None\<rparr>) = 0 \<and>
   deepseek_sql ((example_state None (Some EmptyQuery) 1)\<lparr>deepseek_sql := Some []\<rparr>) = Some [] \<and>
   repair_count ((example_state None (Some EmptyQuery) 1)\<lparr>deepseek_sql := Some []\<rparr>) < 2 \<and>
   run_node backend_down RepairSql ((example_state None (Some EmptyQuery) 1)\<lparr>deepseek_sql := Some []\<rparr>) =
     Inr ((example_state None (Some ''SQL repair failed: timeout'') 2)\<lparr>deepseek_sql := Some []\<rparr>,
          [RepairCall]) \<and>
   last (fst (run_from (stubborn_backend ''DROP TABLE nyc_311'') Input
      (initial_context ''How many complaints are there?'')))
     \<in> set (fst (run_from (stubborn_backend ''DROP TABLE nyc_311'') Input
      (initial_context ''How many complaints are there?''))) \<and>
   repair_count (fst (snd (last (fst (run_from (stubborn_backend ''DROP TABLE nyc_311'') Input
      (initial_context ''How many complaints are there?'')))))) \<le> 2 \<and>
   repair_count (fst (snd (last (fst (run_from (stubborn_backend ''DROP TABLE nyc_311'') Input
      (initial_context ''How many complaints are there?'')))))) = 2"
proof -
  let ?q = "''How many complaints are there?''"
  let ?env = "stubborn_backend ''DROP TABLE nyc_311''"
  let ?steps = "fst (run_from ?env Input (initial_context ?q))"
  let ?st = "(example_state None (Some EmptyQuery) 1)\<lparr>deepseek_sql := Some []\<rparr>"
  note run = stubborn_run [OF stubborn_backend_schema [of "''DROP TABLE nyc_311''"]
      stubborn_backend_generates [of "''DROP TABLE nyc_311''" "''How many complaints are there?''"]
      stubborn_backend_repairs [of "''DROP TABLE nyc_311''"]]
  have ne: "?steps \<noteq> []"
    using run by auto
  then have mem: "last ?steps \<in> set ?steps"
    by simp
  have le: "repair_count (fst (snd (last ?steps))) \<le> 2"
    using repair_count_bounded [of ?q ?env] mem by (metis prod.collapse)
  have eq: "repair_count (fst (snd (last ?steps))) = 2"
    using run final_state_last [OF ne, of "initial_context ?q"] by simp
  have gen: "run_node backend_down GenerateSql (initial_context ?q) =
     Inr ((initial_context ?q)\<lparr>sql_error := Some ''SQL generation failed: timeout'', deepseek_sql := None\<rparr>,
          [GenerationCall])"
    by (simp add: sql_generation_node_def backend_down_def GenerationFailed_def)
  have keeps: "repair_count ((initial_context ?q)
      \<lparr>sql_error := Some ''SQL generation failed: timeout'', deepseek_sql := None\<rparr>) = 0"
    using repair_count_bounded [of ?q backend_down] gen by (simp add: initial_context_def)
  have pre: "deepseek_sql ?st = Some []" "repair_count ?st < 2"
    by (simp_all add: example_state_def)
  have fails: "repair_call backend_down (repair_count ?st) = Inl ''timeout''"
    by (simp add: backend_down_def)
  from repair_count_bounded [of ?q backend_down] pre obtain state' where
    s: "run_node backend_down RepairSql ?st = Inr (state', [RepairCall])"
    "repair_count state' = repair_count ?st + 1"
    by blast
  have rep: "run_node backend_down RepairSql ?st =
      Inr ((example_state None (Some ''SQL repair failed: timeout'') 2)\<lparr>deepseek_sql := Some []\<rparr>,
           [RepairCall])"
    by (simp add: sql_repair_node_def example_state_def backend_down_def MAX_REPAIR_ATTEMPTS_def
        RepairFailed_def)
  show ?thesis
    using gen keeps pre rep mem le eq by simp
qed

section \<open>The boundary of the orchestrator\<close>

text \<open>
  Claim C5 says that every run that starts ends with the final answer set. The run below
  starts (the schema is there) and its generation call fails. \<^verbatim>\<open>sql_generation_node\<close>
  records the error and leaves \<^verbatim>\<open>None\<close> as the candidate; \<^verbatim>\<open>sql_validation_node\<close> slices
  the candidate for its log line before the test that was to handle an empty one, and
  raises. The exception leaves the graph after two nodes: the answerer never runs, the
  final answer of the state is still \<^verbatim>\<open>None\<close>, and what the caller gets is the text that
  \<^verbatim>\<open>run_agent\<close> builds from the exception.
\<close>

theorem generation_failure_ends_the_run:
  "map fst (fst (run_from backend_down Input (initial_context ''How many complaints are there?''))) =
     [Input, GenerateSql] \<and>
   snd (run_from backend_down Input (initial_context ''How many complaints are there?'')) =
     Some not_subscriptable \<and>
   final_answer (final_state (initial_context ''How many complaints are there?'')
     (fst (run_from backend_down Input (initial_context ''How many complaints are there?'')))) = None \<and>
   sql_error (final_state (initial_context ''How many complaints are there?'')
     (fst (run_from backend_down Input (initial_context ''How many complaints are there?'')))) =
     Some ''SQL generation failed: timeout'' \<and>
   run_agent backend_down ''How many complaints are there?'' =
     Inr \<lparr>answer_text = Some (''Agent execution failed: '' @ not_subscriptable), sql = None,
          columns = [], rows = [], error = Some not_subscriptable\<rparr>"
proof -
  let ?s0 = "initial_context ''How many complaints are there?''"
  let ?s1 = "?s0\<lparr>sql_error := Some (GenerationFailed ''timeout''), deepseek_sql := None\<rparr>"
  have i: "run_node backend_down Input ?s0 = Inr (?s0, [])"
    by (simp add: input_node_def)
  have g: "run_node backend_down GenerateSql ?s0 = Inr (?s1, [GenerationCall])"
    by (simp add: sql_generation_node_def backend_down_def)
  have v: "run_node backend_down ValidateSql ?s1 = Inl not_subscriptable"
    by (simp add: sql_validation_node_def)
  have run: "run_from backend_down Input ?s0 =
      ([(Input, ?s0, []), (GenerateSql, ?s1, [GenerationCall])], Some not_subscriptable)"
    using run_from_step [OF i, of GenerateSql] run_from_step [OF g, of ValidateSql]
      run_from_raise [OF v] by simp
  have f: "final_state ?s0 [(Input, ?s0, []), (GenerateSql, ?s1, [GenerationCall])] = ?s1"
    by (simp add: final_state_def)
  have a: "run_agent backend_down ''How many complaints are there?'' =
     Inr \<lparr>answer_text = Some (''Agent execution failed: '' @ not_subscriptable), sql = None,
          columns = [], rows = [], error = Some not_subscriptable\<rparr>"
    using run by (simp add: run_agent_def backend_down_def)
  show ?thesis
    by (simp add: run f a) (simp add: initial_context_def GenerationFailed_def)
qed

section \<open>Validated query and error together\<close>

lemma sql_validation_node_exclusive:
  "sql_validation_node state = Inr state' \<Longrightarrow> validated_sql state' = None \<or> sql_error state' = None"
  by (auto simp: sql_validation_node_def limit_step_def Let_def
      split: option.splits if_splits prod.splits)

lemma select_1_accepted:
  assumes "deepseek_sql state = Some ''SELECT 1''"
  shows "sql_validation_node state =
    Inr (state\<lparr>sql_error := None, deepseek_sql := Some ''SELECT 1 LIMIT 1000'',
               validated_sql := Some ''SELECT 1 LIMIT 1000''\<rparr>)"
proof -
  have u: "strip (upper ''SELECT 1'') = ''SELECT 1''"
    by (simp only: text_eval cong: eval_cong)
  have ne: "strip ''SELECT 1'' \<noteq> []"
    by (simp only: text_eval cong: eval_cong)
  have sw: "startswith ''SELECT 1'' ''SELECT'' \<or> startswith ''SELECT 1'' ''WITH''"
    by (simp only: text_eval cong: eval_cong)
  have ff: "find_forbidden ''SELECT 1'' = None"
    by (simp only: text_eval regex_eval cong: eval_cong)
  have ft: "find_invalid_table ''SELECT 1'' = None"
    by (simp only: text_eval regex_eval cong: eval_cong)
  have rl: "re_search limit_pattern None ''SELECT 1'' = None"
    by (simp only: text_eval regex_eval cong: eval_cong)
  have ap: "strip (rstrip_chars '';'' ''SELECT 1'') @ '' LIMIT 1000'' = ''SELECT 1 LIMIT 1000''"
    by (simp only: text_eval cong: eval_cong)
  show ?thesis
    using validation_no_limit [OF assms ne] sw ff ft rl by (simp add: u ap)
qed

lemma failing_store_run:
  "snd (run_from failing_store Input (initial_context question)) = None \<and>
   map observe (fst (run_from failing_store Input (initial_context question))) =
     [(Input, None, None), (GenerateSql, None, None),
      (ValidateSql, Some ''SELECT 1 LIMIT 1000'', None),
      (ExecuteSql, Some ''SELECT 1 LIMIT 1000'', Some ''SQL execution failed: Catalog Error''),
      (GenerateAnswer, Some ''SELECT 1 LIMIT 1000'', Some ''SQL execution failed: Catalog Error''),
      (Output, Some ''SELECT 1 LIMIT 1000'', Some ''SQL execution failed: Catalog Error'')]"
proof -
  let ?s0 = "initial_context question"
  let ?s1 = "?s0\<lparr>deepseek_sql := Some ''SELECT 1'', sql_explanation := Some ''a constant''\<rparr>"
  let ?s2 = "?s1\<lparr>sql_error := None, deepseek_sql := Some ''SELECT 1 LIMIT 1000'',
               validated_sql := Some ''SELECT 1 LIMIT 1000''\<rparr>"
  let ?s3 = "?s2\<lparr>sql_error := Some (ExecutionFailed ''Catalog Error''), result_columns := [],
               result_rows := []\<rparr>"
  let ?s4 = "?s3\<lparr>final_answer := Some (''Error: '' @ str_opt (sql_error ?s3))\<rparr>"
  have i: "run_node failing_store Input ?s0 = Inr (?s0, [])"
    by (simp add: input_node_def)
  have g: "run_node failing_store GenerateSql ?s0 = Inr (?s1, [GenerationCall])"
    by (simp add: sql_generation_node_def failing_store_def get_or_def)
  have v: "run_node failing_store ValidateSql ?s1 = Inr (?s2, [])"
    using select_1_accepted [of ?s1] by simp
  have nv: "next_node ValidateSql ?s2 = Some ExecuteSql"
    by (simp add: should_repair_def truthy_def)
  have e: "run_node failing_store ExecuteSql ?s2 = Inr (?s3, [QueryCall ''SELECT 1 LIMIT 1000''])"
    by (simp add: sql_execution_node_def failing_store_def truthy_def str_opt_def)
  have t: "truthy (sql_error ?s3)"
    by (simp add: truthy_def ExecutionFailed_def)
  show ?thesis
    using run_from_step [OF i, of GenerateSql] run_from_step [OF g, of ValidateSql]
      run_from_step [OF v nv] run_from_step [OF e, of GenerateAnswer]
      run_from_answer_error [OF t, of failing_store]
    by (simp add: observe_def ExecutionFailed_def initial_context_def)
qed

text \<open>
  Claim C4, amended. In every state of a run, a non-empty validated query and a recorded
  error are found together only from the executor's failure on: the node just run is the
  executor, the answerer or the output, and the error is \<open>ExecutionFailed\<close>. Everywhere
  else, and always up to the routing out of the validator, the two exclude each other.
\<close>

theorem validated_with_error_only_after_failed_execution:
  assumes "(m, state, cs) \<in> set (fst (run_from env Input (initial_context question)))"
    and "truthy (validated_sql state)" and "sql_error state \<noteq> None"
  shows "m \<in> {ExecuteSql, GenerateAnswer, Output} \<and>
    (\<exists>detail. sql_error state = Some (ExecutionFailed detail))"
proof -
  define bad where "bad = (\<lambda>s :: Context. truthy (validated_sql s) \<and> sql_error s \<noteq> None)"
  define failed where "failed = (\<lambda>s :: Context. \<exists>detail. sql_error s = Some (ExecutionFailed detail))"
  define P where "P = (\<lambda>n s. case n of
      ValidateSql \<Rightarrow> True
    | ExecuteSql \<Rightarrow> \<not> bad s
    | GenerateAnswer \<Rightarrow> bad s \<longrightarrow> failed s
    | Output \<Rightarrow> bad s \<longrightarrow> failed s
    | _ \<Rightarrow> \<not> truthy (validated_sql s))"
  define Q where "Q = (\<lambda>n s. bad s \<longrightarrow> n \<in> {ExecuteSql, GenerateAnswer, Output} \<and> failed s)"
  have step: "Q n s' \<and> (\<forall>n'. next_node n s' = Some n' \<longrightarrow> P n' s')"
    if "P n s" and "run_node env n s = Inr (s', c)" for n s s' c
  proof (cases n)
    case Input
    with that show ?thesis by (auto simp: P_def Q_def bad_def input_node_def)
  next
    case GenerateSql
    with that show ?thesis
      by (auto simp: P_def Q_def bad_def sql_generation_node_def split: sum.splits option.splits)
  next
    case ValidateSql
    with that obtain v: "sql_validation_node s = Inr s'"
      by (auto split: sum.splits)
    from sql_validation_node_exclusive [OF v] have nb: "\<not> bad s'"
      by (auto simp: bad_def truthy_def)
    with ValidateSql show ?thesis
      by (auto simp: P_def Q_def bad_def should_repair_def split: route.splits if_splits)
  next
    case RepairSql
    with that show ?thesis
      by (auto simp: P_def Q_def bad_def sql_repair_node_def Let_def truthy_def
          split: option.splits if_splits sum.splits)
  next
    case ExecuteSql
    with that show ?thesis
      by (auto simp: P_def Q_def bad_def failed_def sql_execution_node_def Let_def truthy_def
          split: if_splits sum.splits prod.splits)
  next
    case GenerateAnswer
    with that show ?thesis
      by (auto simp: P_def Q_def bad_def failed_def answer_generation_node_def
          split: if_splits sum.splits)
  next
    case Output
    with that show ?thesis by (auto simp: P_def Q_def output_node_def)
  qed
  have "P Input (initial_context question)"
    by (simp add: P_def initial_context_def truthy_def)
  from run_from_invariant [of P env Q, OF step this assms(1)] assms(2,3) show ?thesis
    by (simp add: Q_def bad_def failed_def)
qed

theorem validated_with_error_only_after_failed_execution_witness:
  "fst (run_from failing_store Input (initial_context ''How many complaints are there?'')) ! 3
     \<in> set (fst (run_from failing_store Input (initial_context ''How many complaints are there?''))) \<and>
   truthy (validated_sql (fst (snd
     (fst (run_from failing_store Input (initial_context ''How many complaints are there?'')) ! 3)))) \<and>
   sql_error (fst (snd
     (fst (run_from failing_store Input (initial_context ''How many complaints are there?'')) ! 3)))
     \<noteq> None \<and>
   fst (fst (run_from failing_store Input (initial_context ''How many complaints are there?'')) ! 3)
     \<in> {ExecuteSql, GenerateAnswer, Output} \<and>
   (\<exists>detail. sql_error (fst (snd
     (fst (run_from failing_store Input (initial_context ''How many complaints are there?'')) ! 3)))
     = Some (ExecutionFailed detail))"
proof -
  let ?steps = "fst (run_from failing_store Input (initial_context ''How many complaints are there?''))"
  note run = failing_store_run [of "''How many complaints are there?''"]
  from run have "length (map observe ?steps) = 6"
    by simp
  then have len: "length ?steps = 6"
    by simp
  then have mem: "?steps ! 3 \<in> set ?steps"
    by simp
  from run have "map observe ?steps ! 3 =
      (ExecuteSql, Some ''SELECT 1 LIMIT 1000'', Some ''SQL execution failed: Catalog Error'')"
    by simp
  with len have o: "observe (?steps ! 3) =
      (ExecuteSql, Some ''SELECT 1 LIMIT 1000'', Some ''SQL execution failed: Catalog Error'')"
    by simp
  then have t: "truthy (validated_sql (fst (snd (?steps ! 3))))"
    and e: "sql_error (fst (snd (?steps ! 3))) \<noteq> None"
    by (simp_all add: observe_def truthy_def)
  have m: "(fst (?steps ! 3), fst (snd (?steps ! 3)), snd (snd (?steps ! 3))) \<in> set ?steps"
    using mem by simp
  from validated_with_error_only_after_failed_execution [OF m t e] mem t e show ?thesis
    by simp
qed

text \<open>
  As the claim states it, no state of a run would have both; the state after a failed
  execution has.
\<close>

theorem validated_with_error_counterexample:
  "map observe (fst (run_from failing_store Input (initial_context ''How many complaints are there?''))) ! 3 =
     (ExecuteSql, Some ''SELECT 1 LIMIT 1000'', Some ''SQL execution failed: Catalog Error'')"
  using failing_store_run [of "''How many complaints are there?''"] by simp

section \<open>Table references\<close>

lemma verdict_Inr: "verdict (Inr state) = (validated_sql state, sql_error state)"
  by (simp add: verdict_def)

lemma candidate_state_sql: "deepseek_sql (candidate_state candidate) = Some candidate"
  by (simp add: candidate_state_def)

lemma one_cte_accepted:
  "verdict (sql_validation_node (candidate_state one_cte)) = (Some one_cte, None)"
proof -
  have u: "strip (upper one_cte) = ''WITH A AS (SELECT * FROM NYC_311) SELECT * FROM A LIMIT 10''"
    unfolding one_cte_def by (simp only: text_eval cong: eval_cong)
  have ne: "strip one_cte \<noteq> []"
    unfolding one_cte_def by (simp only: text_eval cong: eval_cong)
  have sw: "startswith (strip (upper one_cte)) ''SELECT'' \<or> startswith (strip (upper one_cte)) ''WITH''"
    unfolding u by (simp only: text_eval cong: eval_cong)
  have ff: "find_forbidden (strip (upper one_cte)) = None"
    unfolding u by (simp only: text_eval regex_eval cong: eval_cong)
  have ft: "find_invalid_table (strip (upper one_cte)) = None"
    unfolding u by (simp only: text_eval regex_eval cong: eval_cong)
  have lv: "re_search limit_value_pattern None (strip (upper one_cte)) = Some ([], Some ''10'')"
    unfolding u by (simp only: text_eval regex_eval cong: eval_cong)
  have le: "int_of_digits ''10'' \<le> 1000"
    by (simp add: int_of_digits_def code_def)
  show ?thesis
    by (simp add: validation_limit_ok [OF candidate_state_sql ne sw ff ft lv le] verdict_Inr)
qed

lemma two_ctes_rejected:
  "verdict (sql_validation_node (candidate_state two_ctes)) = (None, Some (InvalidTableReference ''B''))"
proof -
  have u: "strip (upper two_ctes) =
      ''WITH A AS (SELECT * FROM NYC_311), B AS (SELECT * FROM A) SELECT * FROM B LIMIT 10''"
    unfolding two_ctes_def by (simp only: text_eval cong: eval_cong)
  have ne: "strip two_ctes \<noteq> []"
    unfolding two_ctes_def by (simp only: text_eval cong: eval_cong)
  have sw: "startswith (strip (upper two_ctes)) ''SELECT'' \<or> startswith (strip (upper two_ctes)) ''WITH''"
    unfolding u by (simp only: text_eval cong: eval_cong)
  have ff: "find_forbidden (strip (upper two_ctes)) = None"
    unfolding u by (simp only: text_eval regex_eval cong: eval_cong)
  have ft: "find_invalid_table (strip (upper two_ctes)) = Some ''B''"
    unfolding u by (simp only: text_eval regex_eval cong: eval_cong)
  show ?thesis
    by (simp add: validation_table [OF candidate_state_sql ne sw ff ft] verdict_Inr)
qed

text \<open>
  Claim C8 says that every name declared after \<^verbatim>\<open>WITH\<close> is taken as a table that may be
  referenced. The pattern \<^verbatim>\<open>\bWITH\s+(\w+)\<close> takes the one name that follows the keyword.
  A query whose only references are the base table and its own expressions is accepted
  with one expression; with a second expression declared after a comma, the reference to
  it is rejected, and the names extracted after \<^verbatim>\<open>WITH\<close> are the first one alone.
\<close>

theorem second_cte_is_rejected:
  "verdict (sql_validation_node (candidate_state one_cte)) = (Some one_cte, None) \<and>
   re_findall with_pattern None (strip (upper two_ctes)) = [''A''] \<and>
   table_refs (strip (upper two_ctes)) = [''NYC_311'', ''A'', ''B''] \<and>
   verdict (sql_validation_node (candidate_state two_ctes)) =
     (None, Some (InvalidTableReference ''B''))"
proof -
  have u: "strip (upper two_ctes) =
      ''WITH A AS (SELECT * FROM NYC_311), B AS (SELECT * FROM A) SELECT * FROM B LIMIT 10''"
    unfolding two_ctes_def by (simp only: text_eval cong: eval_cong)
  have w: "re_findall with_pattern None (strip (upper two_ctes)) = [''A'']"
    unfolding u by (simp only: text_eval regex_eval cong: eval_cong)
  have t: "table_refs (strip (upper two_ctes)) = [''NYC_311'', ''A'', ''B'']"
    unfolding u by (simp only: text_eval regex_eval cong: eval_cong)
  show ?thesis
    using one_cte_accepted two_ctes_rejected w t by simp
qed

section \<open>Forbidden keywords as whole words\<close>

text \<open>
  The words of a text in upper case are the words of the text, in upper case, and
  stripping a text leaves its words as they are. The pattern of a keyword matches where
  a word begins that is the keyword. So the search of the validator, in the stripped
  upper-case text, finds the keywords that are words of the candidate, letter case apart.
\<close>

lemma is_word_to_upper: "is_word (to_upper c) = is_word c"
  by (auto simp: is_word_def to_upper_def code_def)

lemma is_space_to_upper: "is_space (to_upper c) = is_space c"
  by (auto simp: is_space_def to_upper_def code_def)

lemma is_space_not_word: "is_space c \<Longrightarrow> \<not> is_word c"
  by (auto simp: is_space_def is_word_def)

lemma is_digit_not_space: "is_digit c \<Longrightarrow> \<not> is_space c"
  by (auto simp: is_space_def is_digit_def)

lemma runs_word_acc:
  "acc \<noteq> [] \<Longrightarrow> runs acc s = (acc @ takeWhile is_word s) # runs [] (dropWhile is_word s)"
  by (induction s arbitrary: acc) auto

lemma runs_nonword: "\<forall>c\<in>set b. \<not> is_word c \<Longrightarrow> runs acc b = (if acc = [] then [] else [acc])"
  by (induction b arbitrary: acc) auto

lemma runs_append_nonword: "\<forall>c\<in>set b. \<not> is_word c \<Longrightarrow> runs acc (a @ b) = runs acc a"
  by (induction a arbitrary: acc) (auto simp: runs_nonword)

lemma runs_append_sep: "\<not> is_word c \<Longrightarrow> runs acc (a @ c # b) = runs acc a @ runs [] b"
  by (induction a arbitrary: acc) auto

lemma runs_map_to_upper:
  "runs (map to_upper acc) (map to_upper s) = map (map to_upper) (runs acc s)"
proof (induction s arbitrary: acc)
  case Nil
  show ?case by simp
next
  case (Cons c t)
  show ?case
    using Cons [of "acc @ [c]"] Cons [of "[]"] by (simp add: is_word_to_upper)
qed

lemma words_of_upper: "words_of (upper s) = map upper (words_of s)"
proof -
  have u: "upper = map to_upper"
    by (rule ext) (simp add: upper_def)
  show ?thesis
    using runs_map_to_upper [of "[]" s] by (simp add: words_of_def u)
qed

lemma runs_lstrip: "runs [] (dropWhile is_space s) = runs [] s"
  by (induction s) (auto simp: is_space_not_word)

lemma rev_dropWhile_rev_decomp:
  "s = rev (dropWhile P (rev s)) @ rev (takeWhile P (rev s))"
  by (metis rev_append rev_rev_ident takeWhile_dropWhile_id)

lemma runs_rstrip: "runs acc (rstrip s) = runs acc s"
proof -
  have "\<forall>c\<in>set (rev (takeWhile is_space (rev s))). \<not> is_word c"
    by (auto dest: set_takeWhileD simp: is_space_not_word)
  from runs_append_nonword [OF this, of acc "rstrip s"] show ?thesis
    using rev_dropWhile_rev_decomp [of s is_space] by (simp add: rstrip_def)
qed

lemma words_of_strip: "words_of (strip s) = words_of s"
  by (simp add: words_of_def strip_def lstrip_def runs_lstrip runs_rstrip)

text \<open>The pattern of a keyword matches at a position where a word begins that is the keyword.\<close>

lemma take_drop_takeWhile:
  assumes "k \<noteq> []" and "\<forall>c\<in>set k. is_word c"
  shows "take (length k) s = k \<and> \<not> word_after (drop (length k) s) \<longleftrightarrow> takeWhile is_word s = k"
proof
  assume a: "take (length k) s = k \<and> \<not> word_after (drop (length k) s)"
  then have s: "s = k @ drop (length k) s"
    by (metis append_take_drop_id)
  from a have "takeWhile is_word (drop (length k) s) = []"
    by (cases "drop (length k) s") (auto simp: word_after_def)
  with assms(2) show "takeWhile is_word s = k"
    by (subst s) (simp add: takeWhile_append2)
next
  assume t: "takeWhile is_word s = k"
  have s: "s = k @ dropWhile is_word s"
    using t by (metis takeWhile_dropWhile_id)
  then have d: "drop (length k) s = dropWhile is_word s"
    by (metis append_eq_conv_conj)
  have "\<not> word_after (dropWhile is_word s)"
  proof (cases "dropWhile is_word s")
    case Nil
    show ?thesis by (simp add: word_after_def Nil)
  next
    case (Cons a l)
    with hd_dropWhile [of is_word s] have "\<not> is_word a" by simp
    then show ?thesis by (simp add: word_after_def Cons)
  qed
  with s d show "take (length k) s = k \<and> \<not> word_after (drop (length k) s)"
    by (metis append_eq_conv_conj)
qed

lemma rmatch_keyword:
  assumes "k \<noteq> []" and "\<forall>c\<in>set k. is_word c"
  shows "rmatch (keyword_pattern k) p s g \<noteq> None \<longleftrightarrow> \<not> word_before p \<and> takeWhile is_word s = k"
proof -
  have l: "is_word (last k)" using assms by simp
  have "rmatch (keyword_pattern k) p s g \<noteq> None \<longleftrightarrow>
      at_boundary p s \<and> take (length k) s = k \<and> at_boundary (Some (last k)) (drop (length k) s)"
    unfolding keyword_pattern_def rmatch.simps(3) rmatch_lits using assms(1)
    by (auto simp del: rmatch.simps simp add: rmatch.simps(1,3))
  also have "\<dots> \<longleftrightarrow> \<not> word_before p \<and> take (length k) s = k \<and> \<not> word_after (drop (length k) s)"
  proof (cases "take (length k) s = k")
    case True
    then have "s = k @ drop (length k) s" by (metis append_take_drop_id)
    then have "word_after s" using assms by (cases k) (auto simp: word_after_def split: list.splits)
    with l show ?thesis by (auto simp: at_boundary_def word_before_def)
  next
    case False
    then show ?thesis by simp
  qed
  also have "\<dots> \<longleftrightarrow> \<not> word_before p \<and> takeWhile is_word s = k"
    using take_drop_takeWhile [OF assms, of s] by auto
  finally show ?thesis .
qed

lemma search_keyword_runs:
  assumes "k \<noteq> []" and "\<forall>c\<in>set k. is_word c"
  shows "(acc \<noteq> [] \<longleftrightarrow> word_before p) \<Longrightarrow>
    re_search (keyword_pattern k) p s \<noteq> None \<longleftrightarrow>
      k \<in> set (drop (if acc = [] then 0 else 1) (runs acc s))"
proof (induction s arbitrary: acc p)
  case Nil
  show ?case
    using rmatch_keyword [OF assms, of p "[]" None] assms(1) by auto
next
  case (Cons c t)
  have split: "re_search (keyword_pattern k) p (c # t) \<noteq> None \<longleftrightarrow>
      (\<not> word_before p \<and> takeWhile is_word (c # t) = k) \<or>
      re_search (keyword_pattern k) (Some c) t \<noteq> None"
    using rmatch_keyword [OF assms, of p "c # t" None] by (auto split: option.splits)
  show ?case
  proof (cases "is_word c")
    case True
    have ih: "re_search (keyword_pattern k) (Some c) t \<noteq> None \<longleftrightarrow>
        k \<in> set (runs [] (dropWhile is_word t))"
      using Cons.IH [of "acc @ [c]" "Some c"] True
      by (simp add: word_before_def runs_word_acc)
    show ?thesis
      unfolding split ih using True Cons.prems by (auto simp: runs_word_acc)
  next
    case False
    have ih: "re_search (keyword_pattern k) (Some c) t \<noteq> None \<longleftrightarrow> k \<in> set (runs [] t)"
      using Cons.IH [of "[]" "Some c"] False by (simp add: word_before_def)
    from False assms(1) have "takeWhile is_word (c # t) \<noteq> k" by auto
    with False show ?thesis
      unfolding split ih using Cons.prems by auto
  qed
qed

lemma search_keyword_words:
  assumes "k \<noteq> []" and "\<forall>c\<in>set k. is_word c"
  shows "re_search (keyword_pattern k) None s \<noteq> None \<longleftrightarrow> k \<in> set (words_of s)"
  using search_keyword_runs [OF assms, of "[]" None s] by (simp add: word_before_def words_of_def)

lemma forbidden_keywords_are_words:
  "k \<in> set forbidden_keywords \<Longrightarrow> k \<noteq> [] \<and> (\<forall>c\<in>set k. is_word c)"
  by (auto simp: forbidden_keywords_def is_word_ascii)

lemma find_cong_set: "(\<And>x. x \<in> set xs \<Longrightarrow> P x = Q x) \<Longrightarrow> find P xs = find Q xs"
  by (induction xs) auto

lemma find_forbidden_words:
  "find_forbidden (strip (upper q)) = find (\<lambda>k. occurs_whole_word k q) forbidden_keywords"
  unfolding find_forbidden_def
proof (rule find_cong_set)
  fix k assume "k \<in> set forbidden_keywords"
  then have "k \<noteq> []" "\<forall>c\<in>set k. is_word c"
    using forbidden_keywords_are_words by auto
  from search_keyword_words [OF this, of "strip (upper q)"]
  show "(re_search (keyword_pattern k) None (strip (upper q)) \<noteq> None) = occurs_whole_word k q"
    by (simp add: occurs_whole_word_def words_of_strip words_of_upper)
qed

text \<open>The error texts of the validator differ from one check to the other.\<close>

lemma ForbiddenKeyword_inject: "ForbiddenKeyword a = ForbiddenKeyword b \<longleftrightarrow> a = b"
  by (simp add: ForbiddenKeyword_def)

lemma ForbiddenKeyword_not_table: "ForbiddenKeyword k \<noteq> InvalidTableReference t"
  by (simp add: ForbiddenKeyword_def InvalidTableReference_def)

lemma ForbiddenKeyword_not_limit: "ForbiddenKeyword k \<noteq> LimitExceeded n"
  by (simp add: ForbiddenKeyword_def LimitExceeded_def)

lemma ForbiddenKeyword_not_form: "DisallowedStatementForm \<noteq> ForbiddenKeyword k"
  by (simp add: ForbiddenKeyword_def DisallowedStatementForm_def)

lemma limit_step_error:
  assumes "sql_error state = None"
  shows "sql_error (limit_step query sql_upper state) = None \<or>
    (\<exists>n. sql_error (limit_step query sql_upper state) = Some (LimitExceeded n))"
  using assms by (auto simp: limit_step_def Let_def split: option.splits)

lemma validation_after_keywords:
  assumes "deepseek_sql state = Some q" and "strip q \<noteq> []"
    and "startswith (strip (upper q)) ''SELECT'' \<or> startswith (strip (upper q)) ''WITH''"
    and "find_forbidden (strip (upper q)) = None"
  shows "\<exists>state'. sql_validation_node state = Inr state' \<and>
    (sql_error state' = None \<or> (\<exists>t. sql_error state' = Some (InvalidTableReference t))
       \<or> (\<exists>n. sql_error state' = Some (LimitExceeded n)))"
proof (cases "find_invalid_table (strip (upper q))")
  case (Some t)
  show ?thesis
    by (auto simp: validation_table [OF assms Some])
next
  case None
  from assms(2) have "q \<noteq> []" by (auto simp: strip_def lstrip_def rstrip_def)
  with assms None have "sql_validation_node state =
      Inr (limit_step q (strip (upper q)) (state\<lparr>sql_error := None, validated_sql := None\<rparr>))"
    by (auto simp: sql_validation_node_def Let_def)
  then show ?thesis
    using limit_step_error [of "state\<lparr>sql_error := None, validated_sql := None\<rparr>" q "strip (upper q)"]
    by auto
qed

lemma find_Some_ex: "(\<exists>x. find P xs = Some x) \<longleftrightarrow> (\<exists>x. x \<in> set xs \<and> P x)"
  using find_None_iff [of P xs] by auto

text \<open>
  Claim C6 says that a candidate is rejected with \<open>ForbiddenKeyword keyword\<close> exactly when a
  keyword of the list occurs in it as a whole word, whatever its letter case. The check
  comes after the two checks of the form of the statement, so this holds of the
  candidates that are not empty and start with \<^verbatim>\<open>SELECT\<close> or \<^verbatim>\<open>WITH\<close>: such a candidate,
  in ASCII, is rejected with \<open>ForbiddenKeyword keyword\<close> exactly when \<open>keyword\<close> is the first
  keyword of the list, in list order, that is one of the words of the candidate; and it
  is rejected with some forbidden keyword exactly when some keyword of the list is one of
  its words.
\<close>

theorem forbidden_keyword_iff_whole_word:
  assumes "is_ascii q" and "deepseek_sql state = Some q" and "passes_form_checks q"
  shows "(verdict (sql_validation_node state) = (None, Some (ForbiddenKeyword keyword)) \<longleftrightarrow>
            find (\<lambda>k. occurs_whole_word k q) forbidden_keywords = Some keyword) \<and>
         ((\<exists>k. verdict (sql_validation_node state) = (None, Some (ForbiddenKeyword k))) \<longleftrightarrow>
            (\<exists>k. k \<in> set forbidden_keywords \<and> occurs_whole_word k q))"
proof -
  from assms(3) have ne: "strip q \<noteq> []"
    and sw: "startswith (strip (upper q)) ''SELECT'' \<or> startswith (strip (upper q)) ''WITH''"
    by (simp_all add: passes_form_checks_def)
  have first: "verdict (sql_validation_node state) = (None, Some (ForbiddenKeyword k)) \<longleftrightarrow>
      find (\<lambda>k. occurs_whole_word k q) forbidden_keywords = Some k" for k
  proof (cases "find_forbidden (strip (upper q))")
    case (Some k')
    then have "find (\<lambda>k. occurs_whole_word k q) forbidden_keywords = Some k'"
      by (simp add: find_forbidden_words)
    then show ?thesis
      by (auto simp: validation_keyword [OF assms(2) ne sw Some] verdict_Inr ForbiddenKeyword_inject)
  next
    case None
    then have "find (\<lambda>k. occurs_whole_word k q) forbidden_keywords = None"
      by (simp add: find_forbidden_words)
    moreover from validation_after_keywords [OF assms(2) ne sw None]
    have "verdict (sql_validation_node state) \<noteq> (None, Some (ForbiddenKeyword k))"
      by (auto simp: verdict_Inr ForbiddenKeyword_not_table [symmetric]
          ForbiddenKeyword_not_limit [symmetric])
    ultimately show ?thesis by simp
  qed
  show ?thesis
    using first find_Some_ex [of "\<lambda>k. occurs_whole_word k q" forbidden_keywords] by simp
qed

theorem forbidden_keyword_iff_whole_word_witness:
  "is_ascii ''SELECT 1; drop table t'' \<and> passes_form_checks ''SELECT 1; drop table t'' \<and>
   words_of ''SELECT 1; drop table t'' = [''SELECT'', ''1'', ''drop'', ''table'', ''t''] \<and>
   verdict (sql_validation_node (candidate_state ''SELECT 1; drop table t'')) =
     (None, Some (ForbiddenKeyword ''DROP'')) \<and>
   is_ascii ''SELECT dropdown FROM nyc_311'' \<and> passes_form_checks ''SELECT dropdown FROM nyc_311'' \<and>
   words_of ''SELECT dropdown FROM nyc_311'' = [''SELECT'', ''dropdown'', ''FROM'', ''nyc_311''] \<and>
   \<not> (\<exists>k. verdict (sql_validation_node (candidate_state ''SELECT dropdown FROM nyc_311'')) =
     (None, Some (ForbiddenKeyword k)))"
proof -
  have a1: "is_ascii ''SELECT 1; drop table t''"
    by (simp add: is_ascii_def code_def)
  have f1: "passes_form_checks ''SELECT 1; drop table t''"
    unfolding passes_form_checks_def by (simp only: text_eval cong: eval_cong)
  have w1: "words_of ''SELECT 1; drop table t'' = [''SELECT'', ''1'', ''drop'', ''table'', ''t'']"
    unfolding words_of_def by (simp only: text_eval runs.simps cong: eval_cong)
  have k1: "find (\<lambda>k. occurs_whole_word k ''SELECT 1; drop table t'') forbidden_keywords = Some ''DROP''"
    unfolding occurs_whole_word_def w1 forbidden_keywords_def
    by (simp only: text_eval cong: eval_cong)
  have a2: "is_ascii ''SELECT dropdown FROM nyc_311''"
    by (simp add: is_ascii_def code_def)
  have f2: "passes_form_checks ''SELECT dropdown FROM nyc_311''"
    unfolding passes_form_checks_def by (simp only: text_eval cong: eval_cong)
  have w2: "words_of ''SELECT dropdown FROM nyc_311'' = [''SELECT'', ''dropdown'', ''FROM'', ''nyc_311'']"
    unfolding words_of_def by (simp only: text_eval runs.simps cong: eval_cong)
  have k2: "find (\<lambda>k. occurs_whole_word k ''SELECT dropdown FROM nyc_311'') forbidden_keywords = None"
    unfolding occurs_whole_word_def w2 forbidden_keywords_def
    by (simp only: text_eval cong: eval_cong)
  have k2': "\<not> (\<exists>k. k \<in> set forbidden_keywords \<and> occurs_whole_word k ''SELECT dropdown FROM nyc_311'')"
    using k2 find_Some_ex [of "\<lambda>k. occurs_whole_word k ''SELECT dropdown FROM nyc_311''" forbidden_keywords]
    by simp
  show ?thesis
    using forbidden_keyword_iff_whole_word [OF a1 candidate_state_sql f1, of "''DROP''"]
      forbidden_keyword_iff_whole_word [OF a2 candidate_state_sql f2, of "''DROP''"]
      a1 f1 w1 k1 a2 f2 w2 k2'
    by simp
qed

text \<open>
  The example of the claim, \<^verbatim>\<open>DROP TABLE t\<close>, has the keyword as a whole word and is
  rejected, but by the check of the statement form, which comes first, and with its error.
\<close>

theorem drop_statement_counterexample:
  "occurs_whole_word ''DROP'' ''DROP TABLE t'' \<and>
   verdict (sql_validation_node (candidate_state ''DROP TABLE t'')) = (None, Some DisallowedStatementForm) \<and>
   DisallowedStatementForm \<noteq> ForbiddenKeyword ''DROP''"
proof -
  have w: "words_of ''DROP TABLE t'' = [''DROP'', ''TABLE'', ''t'']"
    unfolding words_of_def by (simp only: text_eval runs.simps cong: eval_cong)
  have o: "occurs_whole_word ''DROP'' ''DROP TABLE t''"
    unfolding occurs_whole_word_def w by (simp only: text_eval cong: eval_cong)
  have ne: "strip ''DROP TABLE t'' \<noteq> []"
    by (simp only: text_eval cong: eval_cong)
  have sw: "\<not> (startswith (strip (upper ''DROP TABLE t'')) ''SELECT'' \<or>
      startswith (strip (upper ''DROP TABLE t'')) ''WITH'')"
    by (simp only: text_eval cong: eval_cong)
  show ?thesis
    using o by (simp add: validation_form [OF candidate_state_sql ne sw] verdict_Inr ForbiddenKeyword_not_form)
qed

section \<open>The LIMIT policy\<close>

lemma int_of_digits_10: "int_of_digits ''10'' = 10"
  by (simp add: int_of_digits_def code_def)

lemma int_of_digits_1000: "int_of_digits ''1000'' = 1000"
  by (simp add: int_of_digits_def code_def)

lemma int_of_digits_5000: "int_of_digits ''5000'' = 5000"
  by (simp add: int_of_digits_def code_def)

lemma LimitExceeded_5000: "LimitExceeded 5000 = ''LIMIT value 5000 exceeds maximum of 1000''"
proof -
  have "str_nat 5000 = ''5000''"
    by (simp add: str_nat.simps [of 5000] str_nat.simps [of 500] str_nat.simps [of 50]
        str_nat.simps [of 5] char_of_code code_def)
  then show ?thesis by (simp add: LimitExceeded_def)
qed

lemma grouped_query_normalised:
  "verdict (sql_validation_node (candidate_state grouped_query)) =
     (Some (grouped_query @ '' LIMIT 1000''), None)"
proof -
  have u: "strip (upper grouped_query) =
      ''SELECT COMPLAINT_TYPE, COUNT(*) FROM NYC_311 GROUP BY COMPLAINT_TYPE''"
    unfolding grouped_query_def by (simp only: text_eval cong: eval_cong)
  have ne: "strip grouped_query \<noteq> []"
    unfolding grouped_query_def by (simp only: text_eval cong: eval_cong)
  have sw: "startswith (strip (upper grouped_query)) ''SELECT'' \<or>
      startswith (strip (upper grouped_query)) ''WITH''"
    unfolding u by (simp only: text_eval cong: eval_cong)
  have ff: "find_forbidden (strip (upper grouped_query)) = None"
    unfolding u by (simp only: text_eval regex_eval cong: eval_cong)
  have ft: "find_invalid_table (strip (upper grouped_query)) = None"
    unfolding u by (simp only: text_eval regex_eval cong: eval_cong)
  have nl: "re_search limit_pattern None (strip (upper grouped_query)) = None"
    unfolding u by (simp only: text_eval regex_eval cong: eval_cong)
  have r: "strip (rstrip_chars '';'' grouped_query) = grouped_query"
    unfolding grouped_query_def by (simp only: text_eval cong: eval_cong)
  show ?thesis
    by (simp add: validation_no_limit [OF candidate_state_sql ne sw ff ft nl] verdict_Inr r)
qed

lemma grouped_query_revalidated:
  "verdict (sql_validation_node (candidate_state (grouped_query @ '' LIMIT 1000''))) =
     (Some (grouped_query @ '' LIMIT 1000''), None)"
proof -
  have u: "strip (upper (grouped_query @ '' LIMIT 1000'')) =
      ''SELECT COMPLAINT_TYPE, COUNT(*) FROM NYC_311 GROUP BY COMPLAINT_TYPE LIMIT 1000''"
    unfolding grouped_query_def by (simp only: text_eval cong: eval_cong)
  have ne: "strip (grouped_query @ '' LIMIT 1000'') \<noteq> []"
    unfolding grouped_query_def by (simp only: text_eval cong: eval_cong)
  have sw: "startswith (strip (upper (grouped_query @ '' LIMIT 1000''))) ''SELECT'' \<or>
      startswith (strip (upper (grouped_query @ '' LIMIT 1000''))) ''WITH''"
    unfolding u by (simp only: text_eval cong: eval_cong)
  have ff: "find_forbidden (strip (upper (grouped_query @ '' LIMIT 1000''))) = None"
    unfolding u by (simp only: text_eval regex_eval cong: eval_cong)
  have ft: "find_invalid_table (strip (upper (grouped_query @ '' LIMIT 1000''))) = None"
    unfolding u by (simp only: text_eval regex_eval cong: eval_cong)
  have lv: "re_search limit_value_pattern None (strip (upper (grouped_query @ '' LIMIT 1000''))) =
      Some ([], Some ''1000'')"
    unfolding u by (simp only: text_eval regex_eval cong: eval_cong)
  have le: "int_of_digits ''1000'' \<le> 1000"
    by (simp add: int_of_digits_1000)
  show ?thesis
    by (simp add: validation_limit_ok [OF candidate_state_sql ne sw ff ft lv le] verdict_Inr)
qed

lemma large_limit_rejected:
  "verdict (sql_validation_node (candidate_state large_limit_query)) =
     (None, Some (LimitExceeded 5000))"
proof -
  have u: "strip (upper large_limit_query) = ''SELECT * FROM NYC_311 LIMIT 5000''"
    unfolding large_limit_query_def by (simp only: text_eval cong: eval_cong)
  have ne: "strip large_limit_query \<noteq> []"
    unfolding large_limit_query_def by (simp only: text_eval cong: eval_cong)
  have sw: "startswith (strip (upper large_limit_query)) ''SELECT'' \<or>
      startswith (strip (upper large_limit_query)) ''WITH''"
    unfolding u by (simp only: text_eval cong: eval_cong)
  have ff: "find_forbidden (strip (upper large_limit_query)) = None"
    unfolding u by (simp only: text_eval regex_eval cong: eval_cong)
  have ft: "find_invalid_table (strip (upper large_limit_query)) = None"
    unfolding u by (simp only: text_eval regex_eval cong: eval_cong)
  have lv: "re_search limit_value_pattern None (strip (upper large_limit_query)) =
      Some ([], Some ''5000'')"
    unfolding u by (simp only: text_eval regex_eval cong: eval_cong)
  have gt: "int_of_digits ''5000'' > 1000"
    by (simp add: int_of_digits_5000)
  show ?thesis
    by (simp add: validation_limit_exceeded [OF candidate_state_sql ne sw ff ft lv gt] verdict_Inr
        int_of_digits_5000)
qed

lemma nested_limit_first_match:
  "re_search limit_value_pattern None (strip (upper nested_limit_query)) =
     Some ('') LIMIT 5000'', Some ''10'')"
proof -
  have u: "strip (upper nested_limit_query) =
      ''SELECT * FROM (SELECT * FROM NYC_311 LIMIT 10) LIMIT 5000''"
    unfolding nested_limit_query_def by (simp only: text_eval cong: eval_cong)
  show ?thesis
    unfolding u by (simp only: text_eval regex_eval cong: eval_cong)
qed

lemma nested_limit_accepted:
  "verdict (sql_validation_node (candidate_state nested_limit_query)) =
     (Some nested_limit_query, None)"
proof -
  have u: "strip (upper nested_limit_query) =
      ''SELECT * FROM (SELECT * FROM NYC_311 LIMIT 10) LIMIT 5000''"
    unfolding nested_limit_query_def by (simp only: text_eval cong: eval_cong)
  have ne: "strip nested_limit_query \<noteq> []"
    unfolding nested_limit_query_def by (simp only: text_eval cong: eval_cong)
  have sw: "startswith (strip (upper nested_limit_query)) ''SELECT'' \<or>
      startswith (strip (upper nested_limit_query)) ''WITH''"
    unfolding u by (simp only: text_eval cong: eval_cong)
  have ff: "find_forbidden (strip (upper nested_limit_query)) = None"
    unfolding u by (simp only: text_eval regex_eval cong: eval_cong)
  have ft: "find_invalid_table (strip (upper nested_limit_query)) = None"
    unfolding u by (simp only: text_eval regex_eval cong: eval_cong)
  have le: "int_of_digits ''10'' \<le> 1000"
    by (simp add: int_of_digits_10)
  show ?thesis
    by (simp add: validation_limit_ok [OF candidate_state_sql ne sw ff ft nested_limit_first_match le]
        verdict_Inr)
qed

text \<open>
  The statement terminator is removed before the white space is: one that is followed by a
  line break stays in the validated query.
\<close>

lemma terminated_query_normalised:
  "verdict (sql_validation_node (candidate_state terminated_query)) =
     (Some ''SELECT COUNT(*) FROM nyc_311; LIMIT 1000'', None)"
proof -
  have u: "strip (upper terminated_query) = ''SELECT COUNT(*) FROM NYC_311;''"
    unfolding terminated_query_def by (simp only: text_eval cong: eval_cong)
  have ne: "strip terminated_query \<noteq> []"
    unfolding terminated_query_def by (simp only: text_eval cong: eval_cong)
  have sw: "startswith (strip (upper terminated_query)) ''SELECT'' \<or>
      startswith (strip (upper terminated_query)) ''WITH''"
    unfolding u by (simp only: text_eval cong: eval_cong)
  have ff: "find_forbidden (strip (upper terminated_query)) = None"
    unfolding u by (simp only: text_eval regex_eval cong: eval_cong)
  have ft: "find_invalid_table (strip (upper terminated_query)) = None"
    unfolding u by (simp only: text_eval regex_eval cong: eval_cong)
  have nl: "re_search limit_pattern None (strip (upper terminated_query)) = None"
    unfolding u by (simp only: text_eval regex_eval cong: eval_cong)
  have r: "strip (rstrip_chars '';'' terminated_query) = ''SELECT COUNT(*) FROM nyc_311;''"
    unfolding terminated_query_def by (simp only: text_eval cong: eval_cong)
  show ?thesis
    by (simp add: validation_no_limit [OF candidate_state_sql ne sw ff ft nl] verdict_Inr r)
qed

text \<open>
  Claim C7 says that a query with a LIMIT clause above 1000 is rejected with
  \<open>LimitExceeded\<close>. The validator reads the value of the first LIMIT clause of the text
  only. The example of the specification gets \<^verbatim>\<open>LIMIT 1000\<close> appended and validates to
  itself when validated again, and a query whose one LIMIT clause asks for 5000 rows is
  rejected; but with a LIMIT clause in a subquery before it, the clause that asks for
  5000 rows is not looked at and the query is accepted as it is.
\<close>

theorem later_limit_is_not_checked:
  "verdict (sql_validation_node (candidate_state grouped_query)) =
     (Some (grouped_query @ '' LIMIT 1000''), None) \<and>
   verdict (sql_validation_node (candidate_state (grouped_query @ '' LIMIT 1000''))) =
     (Some (grouped_query @ '' LIMIT 1000''), None) \<and>
   verdict (sql_validation_node (candidate_state large_limit_query)) =
     (None, Some ''LIMIT value 5000 exceeds maximum of 1000'') \<and>
   re_search limit_value_pattern None (strip (upper nested_limit_query)) =
     Some ('') LIMIT 5000'', Some ''10'') \<and>
   verdict (sql_validation_node (candidate_state nested_limit_query)) =
     (Some nested_limit_query, None)"
  using grouped_query_normalised grouped_query_revalidated large_limit_rejected
    nested_limit_first_match nested_limit_accepted
  by (simp add: LimitExceeded_5000)

end
